theory Spec2Isabelle
  imports Complex_Main "HOL-Library.AList"
begin

section \<open>Data model\<close>

text \<open>
  The exceptions the module can raise. \<open>Unmodelled\<close> is not a Python exception: it marks
  the few paths on which the model stops because the Python value involved (a float sum,
  a record field holding the label list, a dict or a callable) has no counterpart here.
\<close>

datatype error = KeyError | IndexError | ValueError | TypeError | SyntaxError
  | AttributeError | OSError | Unmodelled

text \<open>
  A \<open>float\<close>: a finite one is a rational number (no arithmetic is ever done on floats
  here, only comparison, printing and reading), or one of \<open>inf\<close>, \<open>-inf\<close> and \<open>nan\<close>.
\<close>

datatype pyfloat = Finite rat | PosInf | NegInf | NaN

text \<open>
  Atoms of an s-expression: \<open>None\<close>, an \<open>int\<close>, a \<open>float\<close>, a plain \<open>str\<close>, a \<open>Symbol\<close>,
  a \<open>KeyArg\<close>. Strings are lists of 8-bit characters.
\<close>

datatype atom = ANone | AInt int | AFloat pyfloat | AStr string | ASym string | AKey string

datatype sexpr = Atom atom | Lst "sexpr list"

text \<open>\<open>Symbol\<close> and \<open>KeyArg\<close> subclass \<open>str\<close>: all three are strings for \<open>==\<close>.\<close>

fun str_of :: "atom \<Rightarrow> string option" where
  "str_of (AStr s) = Some s"
| "str_of (ASym s) = Some s"
| "str_of (AKey s) = Some s"
| "str_of _ = None"

fun str_eq :: "sexpr \<Rightarrow> string \<Rightarrow> bool" where
  "str_eq (Atom a) s = (str_of a = Some s)"
| "str_eq (Lst _) s = False"

text \<open>\<open>list.index(s)\<close> for a string \<open>s\<close>: the first position whose element equals it.\<close>

fun list_index :: "sexpr list \<Rightarrow> string \<Rightarrow> nat option" where
  "list_index [] s = None"
| "list_index (x # xs) s =
     (if str_eq x s then Some 0 else map_option Suc (list_index xs s))"

text \<open>\<open>str.index(s)\<close>: the first position at which \<open>s\<close> occurs as a substring.\<close>

fun str_index :: "string \<Rightarrow> string \<Rightarrow> nat option" where
  "str_index [] s = (if s = [] then Some 0 else None)"
| "str_index (c # t) s =
     (if take (length s) (c # t) = s then Some 0 else map_option Suc (str_index t s))"

text \<open>A label record is a dict (insertion-ordered, keys distinct) from field names to atoms.\<close>

type_synonym label = "(string \<times> atom) list"

definition dict_set :: "string \<Rightarrow> 'v \<Rightarrow> (string \<times> 'v) list \<Rightarrow> (string \<times> 'v) list" where
  "dict_set k v d = AList.update k v d"

definition dict_get :: "(string \<times> 'v) list \<Rightarrow> string \<Rightarrow> error + 'v" where
  "dict_get d k = (case map_of d k of None \<Rightarrow> Inl KeyError | Some v \<Rightarrow> Inr v)"

text \<open>Python list indexing, \<open>pop\<close> and \<open>insert\<close> with an \<open>int\<close> index.\<close>

definition py_pos :: "'a list \<Rightarrow> int \<Rightarrow> nat option" where
  "py_pos xs i =
     (let n = int (length xs); j = (if i < 0 then n + i else i)
      in if 0 \<le> j \<and> j < n then Some (nat j) else None)"

definition py_get :: "'a list \<Rightarrow> int \<Rightarrow> error + 'a" where
  "py_get xs i = (case py_pos xs i of None \<Rightarrow> Inl IndexError | Some j \<Rightarrow> Inr (xs ! j))"

definition py_pop :: "'a list \<Rightarrow> int \<Rightarrow> error + 'a list" where
  "py_pop xs i =
     (case py_pos xs i of None \<Rightarrow> Inl IndexError
      | Some j \<Rightarrow> Inr (take j xs @ drop (Suc j) xs))"

definition py_insert :: "'a list \<Rightarrow> int \<Rightarrow> 'a \<Rightarrow> 'a list" where
  "py_insert xs i x =
     (let n = int (length xs); j = (if i < 0 then max 0 (n + i) else min i n)
      in take (nat j) xs @ x # drop (nat j) xs)"

section \<open>Code generators\<close>

text \<open>\<open>_gen_code\<close>: the command tree of an operation, from its two dicts.\<close>

definition key_args :: "(string \<times> atom) list \<Rightarrow> sexpr list" where
  "key_args d = concat (map (\<lambda>(k, a). [Atom (AKey k), Atom a]) d)"

definition gen_code :: "string \<Rightarrow> string \<Rightarrow> (string \<times> atom) list \<Rightarrow> (string \<times> atom) list \<Rightarrow> sexpr" where
  "gen_code op target_name target other_args =
     Lst ([Atom (ASym op), Atom (AKey ''labels''), Atom (ASym ''labels''),
           Atom (AKey ''target''), Lst (Atom (ASym target_name) # key_args target)]
          @ key_args other_args)"

text \<open>\<open>a + b\<close> as the generators use it (on two names): strings concatenate to a plain \<open>str\<close>.\<close>

fun py_add :: "atom \<Rightarrow> atom \<Rightarrow> error + atom" where
  "py_add (AInt m) (AInt n) = Inr (AInt (m + n))"
| "py_add (AInt m) (AFloat y) = Inl Unmodelled"
| "py_add (AFloat x) (AInt n) = Inl Unmodelled"
| "py_add (AFloat x) (AFloat y) = Inl Unmodelled"
| "py_add a b =
     (case (str_of a, str_of b) of (Some s, Some t) \<Rightarrow> Inr (AStr (s @ t))
      | _ \<Rightarrow> Inl TypeError)"

text \<open>Sequencing with exceptions: the first error ends the computation.\<close>

fun ebind :: "error + 'a \<Rightarrow> ('a \<Rightarrow> error + 'b) \<Rightarrow> error + 'b" where
  "ebind (Inl e) f = Inl e"
| "ebind (Inr x) f = f x"


definition codegen_set_start :: "label list \<Rightarrow> int \<Rightarrow> atom \<Rightarrow> error + sexpr" where
  "codegen_set_start labels index new_start =
     ebind (py_get labels index) (\<lambda>l.
     ebind (dict_get l ''start'') (\<lambda>st.
       Inr (gen_code ''set_start'' ''interval''
              [(''index'', AInt index), (''start'', st)] [(''new_start'', new_start)])))"

definition codegen_set_stop :: "label list \<Rightarrow> int \<Rightarrow> atom \<Rightarrow> error + sexpr" where
  "codegen_set_stop labels index new_stop =
     ebind (py_get labels index) (\<lambda>l.
     ebind (dict_get l ''stop'') (\<lambda>sp.
       Inr (gen_code ''set_stop'' ''interval''
              [(''index'', AInt index), (''stop'', sp)] [(''new_stop'', new_stop)])))"

text \<open>The extra columns of a record: every key but \<open>start\<close>, \<open>stop\<close>, \<open>name\<close>.\<close>

definition columns :: "label \<Rightarrow> string list" where
  "columns l = filter (\<lambda>c. c \<notin> {''start'', ''stop'', ''name''}) (map fst l)"

text \<open>The loop over the extra columns in \<open>codegen_merge_next\<close>, on \<open>(target, other_args)\<close>.\<close>

fun merge_columns :: "label \<Rightarrow> label \<Rightarrow> string list
    \<Rightarrow> (string \<times> atom) list \<times> (string \<times> atom) list
    \<Rightarrow> error + (string \<times> atom) list \<times> (string \<times> atom) list" where
  "merge_columns l l1 [] (target, other_args) = Inr (target, other_args)"
| "merge_columns l l1 (c # cs) (target, other_args) =
     ebind (dict_get l c) (\<lambda>v.
     ebind (dict_get l1 c) (\<lambda>v1.
       merge_columns l l1 cs
         (dict_set (''next_'' @ c) v1 (dict_set c v target),
          dict_set (''new_next_'' @ c) ANone (dict_set (''new_'' @ c) ANone other_args))))"

definition codegen_merge_next :: "label list \<Rightarrow> int \<Rightarrow> atom \<Rightarrow> error + sexpr" where
  "codegen_merge_next labels index new_name =
     ebind (py_get labels index) (\<lambda>l.
     ebind (dict_get l ''name'') (\<lambda>nm.
     ebind (dict_get l ''stop'') (\<lambda>sp.
     ebind (py_get labels (index + 1)) (\<lambda>l1.
     ebind (dict_get l1 ''start'') (\<lambda>nst.
     ebind (dict_get l1 ''name'') (\<lambda>nnm.
     ebind (if new_name = ANone then py_add nm nnm else Inr new_name) (\<lambda>new_name'.
     ebind (merge_columns l l1 (columns l)
             ([(''index'', AInt index), (''name'', nm), (''stop'', sp),
               (''next_start'', nst), (''next_name'', nnm)],
              [(''new_name'', new_name'), (''new_stop'', ANone),
               (''new_next_start'', ANone), (''new_next_name'', ANone)]))
       (\<lambda>(target, other_args).
          Inr (gen_code ''merge_next'' ''interval_pair'' target other_args)))))))))"

text \<open>The loop over the extra columns in \<open>codegen_split\<close>; \<open>kwargs\<close> are the caller's.\<close>

fun split_columns :: "label \<Rightarrow> (string \<times> atom) list \<Rightarrow> string list
    \<Rightarrow> (string \<times> atom) list \<times> (string \<times> atom) list
    \<Rightarrow> error + (string \<times> atom) list \<times> (string \<times> atom) list" where
  "split_columns l kwargs [] (target, other_args) = Inr (target, other_args)"
| "split_columns l kwargs (c # cs) (target, other_args) =
     ebind (dict_get l c) (\<lambda>v.
     ebind (dict_get kwargs (''new_'' @ c)) (\<lambda>nv.
     ebind (dict_get kwargs (''new_next_'' @ c)) (\<lambda>nnv.
       split_columns l kwargs cs
         (dict_set (''next_'' @ c) ANone (dict_set c v target),
          dict_set (''new_next_'' @ c) nnv (dict_set (''new_'' @ c) nv other_args)))))"

text \<open>
  A keyword dict passed as \<open>**kwargs\<close> cannot repeat a named parameter of the callee:
  Python raises TypeError before the body runs.
\<close>

definition clashes :: "string list \<Rightarrow> (string \<times> atom) list \<Rightarrow> bool" where
  "clashes params kwargs = (\<exists>k \<in> set (map fst kwargs). k \<in> set params)"

definition codegen_split ::
    "label list \<Rightarrow> int \<Rightarrow> atom \<Rightarrow> atom \<Rightarrow> atom \<Rightarrow> (string \<times> atom) list \<Rightarrow> error + sexpr" where
  "codegen_split labels index new_sep new_name new_next_name kwargs =
     (if clashes [''self'', ''index'', ''new_sep'', ''new_name'', ''new_next_name''] kwargs
      then Inl TypeError else
      ebind (py_get labels index) (\<lambda>l.
      ebind (dict_get l ''name'') (\<lambda>nm.
      ebind (dict_get l ''stop'') (\<lambda>sp.
      ebind (split_columns l kwargs (columns l)
             ([(''index'', AInt index), (''name'', nm), (''stop'', sp),
               (''next_name'', ANone), (''next_start'', ANone)],
              [(''new_name'', if new_name = ANone then nm else new_name),
               (''new_stop'', new_sep), (''new_next_start'', new_sep),
               (''new_next_name'',
                  if new_next_name = ANone then AStr [] else new_next_name)]))
        (\<lambda>(target, other_args).
           Inr (gen_code ''split'' ''interval_pair'' target other_args))))))"

text \<open>\<open>d.update(e)\<close> on dicts.\<close>

definition dict_update :: "(string \<times> 'v) list \<Rightarrow> (string \<times> 'v) list \<Rightarrow> (string \<times> 'v) list" where
  "dict_update d e = fold (\<lambda>(k, v). dict_set k v) e d"

definition codegen_delete :: "label list \<Rightarrow> int \<Rightarrow> error + sexpr" where
  "codegen_delete labels index =
     ebind (py_get labels index) (\<lambda>l.
       Inr (gen_code ''delete'' ''interval'' (dict_update [(''index'', AInt index)] l) []))"

definition codegen_create :: "int \<Rightarrow> atom \<Rightarrow> (string \<times> atom) list \<Rightarrow> error + sexpr" where
  "codegen_create index start kwargs =
     (if clashes [''self'', ''index'', ''start''] kwargs then Inl TypeError
      else Inr (gen_code ''create'' ''interval''
                  (dict_update [(''index'', AInt index), (''start'', start)] kwargs) []))"

section \<open>Inversion\<close>

definition INVERSE_TABLE :: "(string \<times> string) list" where
  "INVERSE_TABLE =
     [(''set_name'', ''set_name''), (''set_start'', ''set_start''),
      (''set_stop'', ''set_stop''), (''merge_next'', ''split''),
      (''split'', ''merge_next''), (''delete'', ''create''), (''create'', ''delete'')]"

text \<open>\<open>INVERSE_TABLE[op]\<close>: a list is unhashable, any other object is a missing key.\<close>

fun inverse_of :: "sexpr \<Rightarrow> error + string" where
  "inverse_of (Lst _) = Inl TypeError"
| "inverse_of (Atom a) =
     (case str_of a of None \<Rightarrow> Inl KeyError | Some s \<Rightarrow> dict_get INVERSE_TABLE s)"

text \<open>\<open>isinstance(curr, KeyArg) and len(curr) >= 4 and curr[:4] == 'new_'\<close>\<close>

fun new_key :: "sexpr \<Rightarrow> string option" where
  "new_key (Atom (AKey k)) =
     (if length k \<ge> 4 \<and> take 4 k = ''new_'' then Some (drop 4 k) else None)"
| "new_key _ = None"

text \<open>
  The loop of \<open>invert\<close> works on two objects: the list \<open>s_expr\<close> and the object \<open>target\<close>
  bound before the loop, which is the element \<open>s_expr[tpos]\<close>. The state is
  \<open>(s_expr, target, linked)\<close>; \<open>linked\<close> says that \<open>s_expr[tpos]\<close> still is the object
  \<open>target\<close> (an assignment to \<open>s_expr[tpos]\<close> ends that), and while it holds the element is
  kept equal to \<open>target\<close>. The tree has no other sharing on entry; \<open>deepcopy\<close> of a tree is
  the tree.

  One swap, for \<open>curr = s_expr[i]\<close> a \<open>new_\<close> key with \<open>oldname = curr[4:]\<close>:
  \<^verbatim>\<open>
      oldval = copy.deepcopy(target[target.index(oldname) + 1])
      target[target.index(oldname) + 1] = copy.deepcopy(s_expr[i + 1])
      s_expr[i + 1] = oldval
  \<close>
  A \<open>target\<close> that is a string has \<open>index\<close> (substring search) but no item assignment;
  \<open>None\<close> and numbers have no \<open>index\<close>.
\<close>

type_synonym inv_state = "sexpr list \<times> sexpr \<times> bool"

fun swap_at :: "nat \<Rightarrow> nat \<Rightarrow> string \<Rightarrow> inv_state \<Rightarrow> error + inv_state" where
  "swap_at tpos i oldname (xs, Atom a, linked) =
     (case str_of a of None \<Rightarrow> Inl AttributeError
      | Some t \<Rightarrow>
         (case str_index t oldname of None \<Rightarrow> Inl ValueError
          | Some j \<Rightarrow>
              if Suc j \<ge> length t then Inl IndexError
              else if Suc i \<ge> length xs then Inl IndexError
              else Inl TypeError))"
| "swap_at tpos i oldname (xs, Lst ts, linked) =
     (case list_index ts oldname of None \<Rightarrow> Inl ValueError
      | Some j \<Rightarrow>
          if Suc j \<ge> length ts then Inl IndexError
          else if Suc i \<ge> length xs then Inl IndexError
          else let oldval = ts ! Suc j;
                   target' = Lst (ts[Suc j := xs ! Suc i]);
                   xs1 = (if linked then xs[tpos := target'] else xs)
               in Inr (xs1[Suc i := oldval], target', linked \<and> Suc i \<noteq> tpos))"

fun invert_loop :: "nat \<Rightarrow> nat list \<Rightarrow> inv_state \<Rightarrow> error + inv_state" where
  "invert_loop tpos [] st = Inr st"
| "invert_loop tpos (i # is) (xs, target, linked) =
     (case new_key (xs ! i) of
        None \<Rightarrow> invert_loop tpos is (xs, target, linked)
      | Some oldname \<Rightarrow>
          (case swap_at tpos i oldname (xs, target, linked) of
             Inl e \<Rightarrow> Inl e
           | Inr st \<Rightarrow> invert_loop tpos is st))"

text \<open>
  \<open>invert\<close> returns the pair (the argument \<open>s_expr\<close> as the call leaves it, the returned
  tree): the assignments of the loop are made in the argument itself, and the returned
  list is a new head followed by \<open>s_expr[1:]\<close>.
\<close>

fun invert :: "sexpr \<Rightarrow> error + sexpr \<times> sexpr" where
  "invert (Atom a) =
     (case str_of a of None \<Rightarrow> Inl TypeError
      | Some s \<Rightarrow> if s = [] then Inl IndexError else Inl KeyError)"
| "invert (Lst xs) =
     (if xs = [] then Inl IndexError else
      ebind (inverse_of (hd xs)) (\<lambda>inv_op.
        case list_index xs ''target'' of
          None \<Rightarrow> Inl ValueError
        | Some j \<Rightarrow>
            if Suc j \<ge> length xs then Inl IndexError else
            ebind (invert_loop (Suc j) [0..<length xs] (xs, xs ! Suc j, True))
              (\<lambda>(xs', target, linked).
                 Inr (Lst xs', Lst (Atom (ASym inv_op) # tl xs')))))"

text \<open>The tree alone, as \<open>undo\<close> and \<open>redo\<close> use it (they drop the popped argument).\<close>

definition invert_tree :: "sexpr \<Rightarrow> error + sexpr" where
  "invert_tree c = ebind (invert c) (\<lambda>(c', r). Inr r)"

section \<open>Raw operations\<close>

text \<open>
  The values the evaluator computes: an atom that is not a symbol, the label list (the one
  list object of the engine, held by reference), a dict built by \<open>interval\<close> or
  \<open>interval_pair\<close>, or a callable of \<open>make_env\<close>: \<open>functools.partial(_set_value, labels=labels,
  column=c)\<close>, the partials of the four other operations, and \<open>dict\<close>.
\<close>

datatype proc = SetValue string | MergeNext | Split | Delete | Create | DictCtor

datatype pyval = VAtom atom | VLabels | VDict "(string \<times> pyval) list" | VProc proc

type_synonym kwargs = "(string \<times> pyval) list"

text \<open>An outcome is the value returned or the exception raised, and the label list left.\<close>

type_synonym 'a outcome = "(error + 'a) \<times> label list"

text \<open>\<open>target[k]\<close>: only a dict can be subscripted by a string.\<close>

fun target_get :: "pyval \<Rightarrow> string \<Rightarrow> error + pyval" where
  "target_get (VDict d) k = dict_get d k"
| "target_get _ k = Inl TypeError"

text \<open>A list position, \<open>pop\<close> and \<open>insert\<close> take an \<open>int\<close> and nothing else.\<close>

fun as_index :: "pyval \<Rightarrow> error + int" where
  "as_index (VAtom (AInt i)) = Inr i"
| "as_index _ = Inl TypeError"

text \<open>
  \<open>labels[...]\<close> where the argument \<open>labels\<close> may be any value: \<open>None\<close> and numbers cannot
  be subscripted; a string, a dict or a callable in that place is outside the model.
\<close>

fun subscriptable :: "pyval \<Rightarrow> error + unit" where
  "subscriptable VLabels = Inr ()"
| "subscriptable (VAtom ANone) = Inl TypeError"
| "subscriptable (VAtom (AInt _)) = Inl TypeError"
| "subscriptable (VAtom (AFloat _)) = Inl TypeError"
| "subscriptable _ = Inl Unmodelled"

text \<open>\<open>labels[i]\<close> as a position of the list.\<close>

definition labels_pos :: "pyval \<Rightarrow> pyval \<Rightarrow> label list \<Rightarrow> error + nat" where
  "labels_pos lv iv L =
     ebind (subscriptable lv) (\<lambda>_.
     ebind (as_index iv) (\<lambda>i.
       case py_pos L i of None \<Rightarrow> Inl IndexError | Some p \<Rightarrow> Inr p))"

text \<open>
  \<open>record[column]\<close> on a dict with string keys: any other hashable key is missing, an
  unhashable one is a TypeError.
\<close>

fun record_get :: "label \<Rightarrow> pyval \<Rightarrow> error + atom" where
  "record_get r (VAtom a) = (case str_of a of None \<Rightarrow> Inl KeyError | Some c \<Rightarrow> dict_get r c)"
| "record_get r (VProc _) = Inl KeyError"
| "record_get r _ = Inl TypeError"

text \<open>A record field holds an atom; storing any other value is outside the model.\<close>

fun atom_of :: "pyval \<Rightarrow> error + atom" where
  "atom_of (VAtom a) = Inr a"
| "atom_of _ = Inl Unmodelled"

text \<open>The keyword arguments a raw operation receives in \<open>**kwargs\<close>.\<close>

definition rest_kwargs :: "string list \<Rightarrow> kwargs \<Rightarrow> kwargs" where
  "rest_kwargs params kw = filter (\<lambda>(k, v). k \<notin> set params) kw"

text \<open>
  \<^verbatim>\<open>
  def _set_value(labels, target, column, **kwargs):
      labels[target['index']][column] # raise KeyError if column not present
      labels[target['index']][column] = kwargs['new_' + column]
  \<close>
\<close>

definition set_value :: "pyval \<Rightarrow> pyval \<Rightarrow> pyval \<Rightarrow> kwargs \<Rightarrow> label list \<Rightarrow> pyval outcome" where
  "set_value lv target column kwargs L =
     (case
        ebind (target_get target ''index'') (\<lambda>iv.
        ebind (labels_pos lv iv L) (\<lambda>p.
        ebind (record_get (L ! p) column) (\<lambda>_.
        case column of
          VAtom a \<Rightarrow>
            (case str_of a of None \<Rightarrow> Inl TypeError
             | Some c \<Rightarrow>
                 ebind (dict_get kwargs (''new_'' @ c)) (\<lambda>v.
                 ebind (atom_of v) (\<lambda>x. Inr (L[p := dict_set c x (L ! p)]))))
        | _ \<Rightarrow> Inl TypeError)))
      of Inl e \<Rightarrow> (Inl e, L) | Inr L' \<Rightarrow> (Inr (VAtom ANone), L'))"

text \<open>
  \<^verbatim>\<open>
  def _merge_next(labels, target, **kwargs):
      index = target['index']
      labels[index]['stop'] = labels[index + 1]['stop']
      labels[index]['name'] = kwargs['new_name']
      labels.pop(index + 1)
  \<close>
  The second line has already written \<open>stop\<close> when the third one fails.
\<close>

definition merge_next :: "pyval \<Rightarrow> pyval \<Rightarrow> kwargs \<Rightarrow> label list \<Rightarrow> pyval outcome" where
  "merge_next lv target kwargs L =
     (case
        ebind (target_get target ''index'') (\<lambda>iv.
        ebind (subscriptable lv) (\<lambda>_.
        ebind (as_index iv) (\<lambda>i.
        ebind (py_get L (i + 1)) (\<lambda>nxt.
        ebind (dict_get nxt ''stop'') (\<lambda>sp.
        case py_pos L i of None \<Rightarrow> Inl IndexError
        | Some p \<Rightarrow> Inr (i, p, L[p := dict_set ''stop'' sp (L ! p)]))))))
      of Inl e \<Rightarrow> (Inl e, L)
      | Inr (i, p, L1) \<Rightarrow>
         (case
            ebind (dict_get kwargs ''new_name'') (\<lambda>v.
            ebind (atom_of v) (\<lambda>x.
              py_pop (L1[p := dict_set ''name'' x (L1 ! p)]) (i + 1)))
          of Inl e \<Rightarrow> (Inl e, L1) | Inr L2 \<Rightarrow> (Inr (VAtom ANone), L2)))"

text \<open>
  Ordering of two values with \<open><\<close>: numbers by value (an \<open>int\<close> and a \<open>float\<close> compare
  exactly; every comparison with \<open>nan\<close> is false), strings by code points; a list
  compared with itself is not smaller; anything else is a TypeError.
\<close>

fun str_less :: "string \<Rightarrow> string \<Rightarrow> bool" where
  "str_less [] [] = False"
| "str_less [] (y # ys) = True"
| "str_less (x # xs) [] = False"
| "str_less (x # xs) (y # ys) =
     ((of_char x :: nat) < of_char y \<or> (x = y \<and> str_less xs ys))"

fun float_less :: "pyfloat \<Rightarrow> pyfloat \<Rightarrow> bool" where
  "float_less NaN y = False"
| "float_less x NaN = False"
| "float_less (Finite x) (Finite y) = (x < y)"
| "float_less x NegInf = False"
| "float_less NegInf y = True"
| "float_less PosInf y = False"
| "float_less x PosInf = True"


fun num_of :: "atom \<Rightarrow> pyfloat option" where
  "num_of (AInt i) = Some (Finite (of_int i))"
| "num_of (AFloat x) = Some x"
| "num_of _ = None"

fun py_less :: "pyval \<Rightarrow> pyval \<Rightarrow> error + bool" where
  "py_less (VAtom a) (VAtom b) =
     (case (num_of a, num_of b) of
        (Some x, Some y) \<Rightarrow> Inr (float_less x y)
      | _ \<Rightarrow>
        (case (str_of a, str_of b) of
           (Some s, Some t) \<Rightarrow> Inr (str_less s t)
         | _ \<Rightarrow> Inl TypeError))"
| "py_less VLabels VLabels = Inr False"
| "py_less _ _ = Inl TypeError"

text \<open>
  The loop of \<open>_split\<close> over \<open>kwargs\<close>, on the record \<open>labels[index]\<close> and its copy
  \<open>new_point\<close>; the error, if any, comes with the two records as they are then.
  \<^verbatim>\<open>
      for key in kwargs:
          if key[:9] == 'new_next_':
              new_point[key[9:]] = kwargs[key]
          elif key[:4] == 'new_':
              labels[index][key[4:]] = kwargs[key]
  \<close>
\<close>

fun split_loop :: "kwargs \<Rightarrow> label \<times> label \<Rightarrow> error option \<times> label \<times> label" where
  "split_loop [] (r, new_point) = (None, r, new_point)"
| "split_loop ((key, v) # kw) (r, new_point) =
     (if take 9 key = ''new_next_'' then
        (case atom_of v of Inl e \<Rightarrow> (Some e, r, new_point)
         | Inr x \<Rightarrow> split_loop kw (r, dict_set (drop 9 key) x new_point))
      else if take 4 key = ''new_'' then
        (case atom_of v of Inl e \<Rightarrow> (Some e, r, new_point)
         | Inr x \<Rightarrow> split_loop kw (dict_set (drop 4 key) x r, new_point))
      else split_loop kw (r, new_point))"

text \<open>
  The guard of \<open>_split\<close>, as Python evaluates it (\<open>and\<close> does not evaluate its second
  operand when the first is false):
  \<^verbatim>\<open>
      if not (kwargs['new_stop'] > labels[target['index']]['start'] and
              kwargs['new_next_start'] < labels[target['index']]['stop']):
          raise ValueError('split point must be within interval')
  \<close>
  It returns the position of the record when the guard lets the split go on.
\<close>

definition split_guard :: "pyval \<Rightarrow> pyval \<Rightarrow> kwargs \<Rightarrow> label list \<Rightarrow> error + nat" where
  "split_guard lv target kwargs L =
     ebind (dict_get kwargs ''new_stop'') (\<lambda>new_stop.
     ebind (target_get target ''index'') (\<lambda>iv.
     ebind (labels_pos lv iv L) (\<lambda>p.
     ebind (dict_get (L ! p) ''start'') (\<lambda>start.
     ebind (py_less (VAtom start) new_stop) (\<lambda>b1.
       if \<not> b1 then Inl ValueError else
       ebind (dict_get kwargs ''new_next_start'') (\<lambda>new_next_start.
       ebind (dict_get (L ! p) ''stop'') (\<lambda>stop.
       ebind (py_less new_next_start (VAtom stop)) (\<lambda>b2.
         if \<not> b2 then Inl ValueError else Inr p))))))))"

text \<open>
  \<^verbatim>\<open>
      index = target['index']
      new_point = copy.deepcopy(labels[index])
      for key in kwargs: ...
      labels.insert(index + 1, new_point)
  \<close>
\<close>

definition split :: "pyval \<Rightarrow> pyval \<Rightarrow> kwargs \<Rightarrow> label list \<Rightarrow> pyval outcome" where
  "split lv target kwargs L =
     (case split_guard lv target kwargs L of
        Inl e \<Rightarrow> (Inl e, L)
      | Inr p \<Rightarrow>
         (case ebind (target_get target ''index'') as_index of
            Inl e \<Rightarrow> (Inl e, L)
          | Inr i \<Rightarrow>
             (case split_loop kwargs (L ! p, L ! p) of
                (Some e, r, new_point) \<Rightarrow> (Inl e, L[p := r])
              | (None, r, new_point) \<Rightarrow>
                  (Inr (VAtom ANone), py_insert (L[p := r]) (i + 1) new_point))))"

text \<open>
  \<^verbatim>\<open>
  def _delete(labels, target, **kwargs):
      labels.pop(target['index'])
  \<close>
  Only a list and a dict have \<open>pop\<close>; a dict in that place is outside the model.
\<close>

fun has_pop :: "pyval \<Rightarrow> error + unit" where
  "has_pop VLabels = Inr ()"
| "has_pop (VAtom _) = Inl AttributeError"
| "has_pop (VProc DictCtor) = Inl Unmodelled"
| "has_pop (VProc _) = Inl AttributeError"
| "has_pop (VDict _) = Inl Unmodelled"

definition delete :: "pyval \<Rightarrow> pyval \<Rightarrow> kwargs \<Rightarrow> label list \<Rightarrow> pyval outcome" where
  "delete lv target kwargs L =
     (case
        ebind (has_pop lv) (\<lambda>_.
        ebind (target_get target ''index'') (\<lambda>iv.
        ebind (as_index iv) (\<lambda>i. py_pop L i)))
      of Inl e \<Rightarrow> (Inl e, L) | Inr L' \<Rightarrow> (Inr (VAtom ANone), L'))"

text \<open>
  \<^verbatim>\<open>
  def _create(labels, target, **kwargs):
      index = target['index']
      new_point = {'start': target['start'],
                   'stop': target['stop'],
                   'name': target['name']}
      del target['start'], target['stop'], target['name'], target['index']
      new_point.update(target)
      labels.insert(index, new_point)
  \<close>
  The dict \<open>target\<close> is the one the evaluator has just built for this call.
\<close>

fun has_insert :: "pyval \<Rightarrow> error + unit" where
  "has_insert VLabels = Inr ()"
| "has_insert _ = Inl AttributeError"

fun atoms_of :: "kwargs \<Rightarrow> error + (string \<times> atom) list" where
  "atoms_of [] = Inr []"
| "atoms_of ((k, v) # d) =
     ebind (atom_of v) (\<lambda>x. ebind (atoms_of d) (\<lambda>d'. Inr ((k, x) # d')))"

definition create :: "pyval \<Rightarrow> pyval \<Rightarrow> kwargs \<Rightarrow> label list \<Rightarrow> pyval outcome" where
  "create lv target kwargs L =
     (case
        ebind (target_get target ''index'') (\<lambda>iv.
        ebind (target_get target ''start'') (\<lambda>start.
        ebind (target_get target ''stop'') (\<lambda>stop.
        ebind (target_get target ''name'') (\<lambda>name.
        case target of
          VDict d \<Rightarrow>
            ebind (has_insert lv) (\<lambda>_.
            ebind (as_index iv) (\<lambda>i.
            ebind (atoms_of
                    (dict_update [(''start'', start), (''stop'', stop), (''name'', name)]
                       (rest_kwargs [''start'', ''stop'', ''name'', ''index''] d)))
              (\<lambda>new_point. Inr (py_insert L i new_point))))
        | _ \<Rightarrow> Inl TypeError))))
      of Inl e \<Rightarrow> (Inl e, L) | Inr L' \<Rightarrow> (Inr (VAtom ANone), L'))"

section \<open>Evaluator\<close>

text \<open>
  Calling a value with keyword arguments. A \<open>partial\<close> adds its own keywords unless the
  call gives them; \<open>target\<close> (and nothing else) is then a required parameter, and the
  parameters named in the signature are taken out of \<open>**kwargs\<close>.
\<close>

definition kw_or :: "kwargs \<Rightarrow> string \<Rightarrow> pyval \<Rightarrow> pyval" where
  "kw_or kw k dflt = (case map_of kw k of None \<Rightarrow> dflt | Some v \<Rightarrow> v)"

fun call_proc :: "proc \<Rightarrow> kwargs \<Rightarrow> label list \<Rightarrow> pyval outcome" where
  "call_proc DictCtor kw L = (Inr (VDict kw), L)"
| "call_proc (SetValue c) kw L =
     (case map_of kw ''target'' of None \<Rightarrow> (Inl TypeError, L)
      | Some target \<Rightarrow>
          set_value (kw_or kw ''labels'' VLabels) target (kw_or kw ''column'' (VAtom (AStr c)))
            (rest_kwargs [''labels'', ''target'', ''column''] kw) L)"
| "call_proc MergeNext kw L =
     (case map_of kw ''target'' of None \<Rightarrow> (Inl TypeError, L)
      | Some target \<Rightarrow>
          merge_next (kw_or kw ''labels'' VLabels) target
            (rest_kwargs [''labels'', ''target''] kw) L)"
| "call_proc Split kw L =
     (case map_of kw ''target'' of None \<Rightarrow> (Inl TypeError, L)
      | Some target \<Rightarrow>
          split (kw_or kw ''labels'' VLabels) target
            (rest_kwargs [''labels'', ''target''] kw) L)"
| "call_proc Delete kw L =
     (case map_of kw ''target'' of None \<Rightarrow> (Inl TypeError, L)
      | Some target \<Rightarrow>
          delete (kw_or kw ''labels'' VLabels) target
            (rest_kwargs [''labels'', ''target''] kw) L)"
| "call_proc Create kw L =
     (case map_of kw ''target'' of None \<Rightarrow> (Inl TypeError, L)
      | Some target \<Rightarrow>
          create (kw_or kw ''labels'' VLabels) target
            (rest_kwargs [''labels'', ''target''] kw) L)"

fun call :: "pyval \<Rightarrow> kwargs \<Rightarrow> label list \<Rightarrow> pyval outcome" where
  "call (VProc f) kw L = call_proc f kw L"
| "call _ kw L = (Inl TypeError, L)"

definition make_env :: "(string \<times> pyval) list" where
  "make_env =
     [(''set_name'', VProc (SetValue ''name'')), (''set_start'', VProc (SetValue ''start'')),
      (''set_stop'', VProc (SetValue ''stop'')), (''merge_next'', VProc MergeNext),
      (''split'', VProc Split), (''delete'', VProc Delete), (''create'', VProc Create),
      (''interval'', VProc DictCtor), (''interval_pair'', VProc DictCtor),
      (''labels'', VLabels)]"

text \<open>
  \<^verbatim>\<open>
  def evaluate(expr, env=make_env()):
      if isinstance(expr, Symbol):
          return env[expr]
      elif not isinstance(expr, list):
          return expr
      else:
          proc = evaluate(expr[0], env)
          kwargs = {p[0]: evaluate(p[1], env) for p in _grouper(expr[1:], 2)}
          return proc(**kwargs)
  \<close>
  \<open>_grouper\<close> pairs the elements and fills an odd last pair with \<open>None\<close>. Each pair
  evaluates its second element, then stores under its first, unevaluated: a list there
  is unhashable (TypeError at once); a string of any of the three classes is the key; any
  other atom is stored too and makes the call fail, since keywords must be strings.
  \<open>eval_pairs\<close> returns the dict of the string keys and whether another key was stored.
\<close>

fun evaluate :: "(string \<times> pyval) list \<Rightarrow> sexpr \<Rightarrow> label list \<Rightarrow> pyval outcome"
and eval_pairs :: "(string \<times> pyval) list \<Rightarrow> sexpr list \<Rightarrow> kwargs \<times> bool \<Rightarrow> label list
      \<Rightarrow> (kwargs \<times> bool) outcome" where
  "evaluate env (Atom (ASym s)) L = (dict_get env s, L)"
| "evaluate env (Atom (AKey s)) L = (dict_get env s, L)"
| "evaluate env (Atom a) L = (Inr (VAtom a), L)"
| "evaluate env (Lst []) L = (Inl IndexError, L)"
| "evaluate env (Lst (h # args)) L =
     (case evaluate env h L of
        (Inl e, L1) \<Rightarrow> (Inl e, L1)
      | (Inr f, L1) \<Rightarrow>
         (case eval_pairs env args ([], False) L1 of
            (Inl e, L2) \<Rightarrow> (Inl e, L2)
          | (Inr (kw, bad), L2) \<Rightarrow> if bad then (Inl TypeError, L2) else call f kw L2))"
| "eval_pairs env [] acc L = (Inr acc, L)"
| "eval_pairs env [k] (kw, bad) L =
     (case k of
        Lst _ \<Rightarrow> (Inl TypeError, L)
      | Atom a \<Rightarrow>
         (case str_of a of
            None \<Rightarrow> (Inr (kw, True), L)
          | Some s \<Rightarrow> (Inr (dict_set s (VAtom ANone) kw, bad), L)))"
| "eval_pairs env (k # x # rest) (kw, bad) L =
     (case evaluate env x L of
        (Inl e, L1) \<Rightarrow> (Inl e, L1)
      | (Inr v, L1) \<Rightarrow>
         (case k of
            Lst _ \<Rightarrow> (Inl TypeError, L1)
          | Atom a \<Rightarrow>
             (case str_of a of
                None \<Rightarrow> eval_pairs env rest (kw, True) L1
              | Some s \<Rightarrow> eval_pairs env rest (dict_set s v kw, bad) L1)))"

section \<open>Correction stack\<close>

text \<open>
  The two deques grow and shrink at their right end, the end of the lists here. They
  hold the commands as trees, each entry an object of its own, as the intent methods and
  \<open>read_from_file\<close> build them. \<open>push\<close> keeps the caller's list object and \<open>invert\<close> writes
  into the object it is given: a history in which one list object is stored twice, or in
  which two entries share a sublist, is outside this model, and no statement below is
  about what such a second entry holds.
  \<open>ops_file\<close> (the attribute \<open>file\<close>), \<open>uuid\<close> and \<open>label_hash\<close> are the three remaining attributes.
\<close>

record correction_stack =
  labels :: "label list"
  undo_stack :: "sexpr list"
  redo_stack :: "sexpr list"
  ops_file :: string
  uuid :: string
  label_hash :: string

text \<open>Each method returns the exception it raised, if any, and the object as it leaves it.\<close>

definition apply_cmd :: "correction_stack \<Rightarrow> sexpr \<Rightarrow> error option \<times> correction_stack" where
  "apply_cmd cs s_expr =
     (case evaluate make_env s_expr (labels cs) of
        (Inl e, L) \<Rightarrow> (Some e, cs\<lparr>labels := L\<rparr>)
      | (Inr v, L) \<Rightarrow> (None, cs\<lparr>labels := L\<rparr>))"

definition undo :: "correction_stack \<Rightarrow> error option \<times> correction_stack" where
  "undo cs =
     (if undo_stack cs = [] then (Some IndexError, cs) else
      let cs1 = cs\<lparr>undo_stack := butlast (undo_stack cs)\<rparr> in
      case invert_tree (last (undo_stack cs)) of
        Inl e \<Rightarrow> (Some e, cs1)
      | Inr c \<Rightarrow> apply_cmd (cs1\<lparr>redo_stack := redo_stack cs1 @ [c]\<rparr>) c)"

definition redo :: "correction_stack \<Rightarrow> error option \<times> correction_stack" where
  "redo cs =
     (if redo_stack cs = [] then (Some IndexError, cs) else
      let cs1 = cs\<lparr>redo_stack := butlast (redo_stack cs)\<rparr> in
      case invert_tree (last (redo_stack cs)) of
        Inl e \<Rightarrow> (Some e, cs1)
      | Inr c \<Rightarrow> apply_cmd (cs1\<lparr>undo_stack := undo_stack cs1 @ [c]\<rparr>) c)"

definition push :: "correction_stack \<Rightarrow> sexpr \<Rightarrow> error option \<times> correction_stack" where
  "push cs cmd = apply_cmd (cs\<lparr>redo_stack := [], undo_stack := undo_stack cs @ [cmd]\<rparr>) cmd"

definition peek :: "correction_stack \<Rightarrow> int \<Rightarrow> error + sexpr" where
  "peek cs index = py_get (undo_stack cs) index"

text \<open>The intent methods: generate the command on the current labels, then push it.\<close>

definition push_generated :: "correction_stack \<Rightarrow> error + sexpr \<Rightarrow> error option \<times> correction_stack" where
  "push_generated cs g = (case g of Inl e \<Rightarrow> (Some e, cs) | Inr cmd \<Rightarrow> push cs cmd)"


definition cs_set_start :: "correction_stack \<Rightarrow> int \<Rightarrow> atom \<Rightarrow> error option \<times> correction_stack" where
  "cs_set_start cs index new_start =
     push_generated cs (codegen_set_start (labels cs) index new_start)"

definition cs_set_stop :: "correction_stack \<Rightarrow> int \<Rightarrow> atom \<Rightarrow> error option \<times> correction_stack" where
  "cs_set_stop cs index new_stop =
     push_generated cs (codegen_set_stop (labels cs) index new_stop)"

definition cs_merge_next :: "correction_stack \<Rightarrow> int \<Rightarrow> atom \<Rightarrow> error option \<times> correction_stack" where
  "cs_merge_next cs index new_name =
     push_generated cs (codegen_merge_next (labels cs) index new_name)"

definition cs_split :: "correction_stack \<Rightarrow> int \<Rightarrow> atom \<Rightarrow> atom \<Rightarrow> atom
    \<Rightarrow> error option \<times> correction_stack" where
  "cs_split cs index new_sep new_name new_next_name =
     push_generated cs (codegen_split (labels cs) index new_sep new_name new_next_name [])"

definition cs_delete :: "correction_stack \<Rightarrow> int \<Rightarrow> error option \<times> correction_stack" where
  "cs_delete cs index = push_generated cs (codegen_delete (labels cs) index)"

definition cs_create :: "correction_stack \<Rightarrow> int \<Rightarrow> atom \<Rightarrow> (string \<times> atom) list
    \<Rightarrow> error option \<times> correction_stack" where
  "cs_create cs index start kwargs = push_generated cs (codegen_create index start kwargs)"

text \<open>
  \<open>_grouper(expr[1:], 2)\<close>, the pairs the evaluator reads: \<open>zip_longest\<close> fills the
  last pair of an odd number of elements with \<open>None\<close>.
\<close>

fun grouper :: "sexpr list \<Rightarrow> (sexpr \<times> sexpr) list" where
  "grouper [] = []"
| "grouper [k] = [(k, Atom ANone)]"
| "grouper (k # x # rest) = (k, x) # grouper rest"

text \<open>An element that is a string: a \<open>KeyArg\<close>, a \<open>Symbol\<close> or a plain \<open>str\<close>.\<close>

fun is_string :: "sexpr \<Rightarrow> bool" where
  "is_string (Atom a) = (str_of a \<noteq> None)"
| "is_string (Lst _) = False"

text \<open>An element that evaluates to itself: an atom that is not a symbol.\<close>

fun self_evaluating :: "sexpr \<Rightarrow> bool" where
  "self_evaluating (Atom (ASym s)) = False"
| "self_evaluating (Atom (AKey s)) = False"
| "self_evaluating (Atom a) = True"
| "self_evaluating (Lst _) = False"


text \<open>
  The values of a Form in the order the evaluator computes them, up to the first error,
  and the name that a string in a name position gives, whatever its class.
\<close>

fun eval_values :: "(string \<times> pyval) list \<Rightarrow> sexpr list \<Rightarrow> label list \<Rightarrow> (pyval list) outcome" where
  "eval_values env [] L = (Inr [], L)"
| "eval_values env (x # xs) L =
     (case evaluate env x L of
        (Inl e, L1) \<Rightarrow> (Inl e, L1)
      | (Inr v, L1) \<Rightarrow>
         (case eval_values env xs L1 of
            (Inl e, L2) \<Rightarrow> (Inl e, L2)
          | (Inr vs, L2) \<Rightarrow> (Inr (v # vs), L2)))"

fun name_of :: "sexpr \<Rightarrow> string" where
  "name_of (Atom (AStr s)) = s"
| "name_of (Atom (ASym s)) = s"
| "name_of (Atom (AKey s)) = s"
| "name_of _ = []"

definition names :: "sexpr list \<Rightarrow> string list" where
  "names args = map (name_of \<circ> fst) (grouper args)"

definition values_of :: "sexpr list \<Rightarrow> sexpr list" where
  "values_of args = map snd (grouper args)"

section \<open>Serializer\<close>

text \<open>
  Text is a list of 8-bit characters, read as code points 0 to 255. \<open>str(n)\<close> of an \<open>int\<close>
  is its decimal numeral. \<open>str(x)\<close> of a \<open>float\<close> and \<open>float(token)\<close> are not modelled:
  they are the parameters \<open>float_str\<close> and \<open>py_float\<close> of the functions that call them.
\<close>

definition digit_char :: "nat \<Rightarrow> char" where
  "digit_char d = char_of (48 + d)"

fun digits_of :: "nat \<Rightarrow> string" where
  "digits_of n = (if n < 10 then [digit_char n] else digits_of (n div 10) @ [digit_char (n mod 10)])"

declare digits_of.simps [simp del]

definition str_int :: "int \<Rightarrow> string" where
  "str_int i = (if i < 0 then CHR ''-'' # digits_of (nat (- i)) else digits_of (nat i))"

text \<open>\<open>s.replace(a, b)\<close> for single characters.\<close>

definition replace_char :: "char \<Rightarrow> char \<Rightarrow> string \<Rightarrow> string" where
  "replace_char a b s = map (\<lambda>c. if c = a then b else c) s"

text \<open>
  \<^verbatim>\<open>
  def deatomize(a):
      if a is None:
          return 'null'
      elif isinstance(a, Symbol):
          ret = a[0] + a[1:].replace('_', '-')
          if isinstance(a, KeyArg):
              ret = '#:' + ret
          return ret
      elif isinstance(a, str):
          return '"' + a + '"'
      elif isinstance(a, numbers.Number):
          return str(a)
  \<close>
  \<open>a[0]\<close> raises IndexError on the empty symbol.
\<close>

fun symbol_text :: "string \<Rightarrow> error + string" where
  "symbol_text [] = Inl IndexError"
| "symbol_text (c # r) = Inr (c # replace_char CHR ''_'' CHR ''-'' r)"

fun deatomize :: "(pyfloat \<Rightarrow> string) \<Rightarrow> atom \<Rightarrow> error + string" where
  "deatomize float_str ANone = Inr ''null''"
| "deatomize float_str (ASym s) = symbol_text s"
| "deatomize float_str (AKey s) = ebind (symbol_text s) (\<lambda>ret. Inr (''#:'' @ ret))"
| "deatomize float_str (AStr s) = Inr (CHR 0x22 # s @ [CHR 0x22])"
| "deatomize float_str (AInt i) = Inr (str_int i)"
| "deatomize float_str (AFloat x) = Inr (float_str x)"

text \<open>
  \<^verbatim>\<open>
  def write_to_tokens(ntl):
      token_list = ['(']
      for t in ntl:
          if isinstance(t, list):
              token_list.extend(write_to_tokens(t))
          else:
              token_list.append(deatomize(t))
      token_list.append(')')
      return token_list
  \<close>
\<close>

fun write_to_tokens :: "(pyfloat \<Rightarrow> string) \<Rightarrow> sexpr list \<Rightarrow> error + string list"
and write_elems :: "(pyfloat \<Rightarrow> string) \<Rightarrow> sexpr list \<Rightarrow> error + string list" where
  "write_to_tokens float_str ntl =
     ebind (write_elems float_str ntl) (\<lambda>ts. Inr (''('' # ts @ ['')'']))"
| "write_elems float_str [] = Inr []"
| "write_elems float_str (Lst ys # ts) =
     ebind (write_to_tokens float_str ys) (\<lambda>us.
     ebind (write_elems float_str ts) (\<lambda>vs. Inr (us @ vs)))"
| "write_elems float_str (Atom a # ts) =
     ebind (deatomize float_str a) (\<lambda>u.
     ebind (write_elems float_str ts) (\<lambda>vs. Inr (u # vs)))"

text \<open>
  \<^verbatim>\<open>
  def detokenize(token_list):
      cmd = token_list[0]
      for t in token_list[1:]:
          if t != ')' and cmd[-1] != '(':
              cmd += ' '
          cmd += t
      return cmd
  \<close>
\<close>

fun detok_loop :: "string \<Rightarrow> string list \<Rightarrow> error + string" where
  "detok_loop cmd [] = Inr cmd"
| "detok_loop cmd (t # ts) =
     (if t \<noteq> '')'' then
        (if cmd = [] then Inl IndexError
         else detok_loop ((if last cmd \<noteq> CHR ''('' then cmd @ '' '' else cmd) @ t) ts)
      else detok_loop (cmd @ t) ts)"

fun detokenize :: "string list \<Rightarrow> error + string" where
  "detokenize [] = Inl IndexError"
| "detokenize (t # ts) = detok_loop t ts"

text \<open>
  \<open>deparse\<close> of a command. Of an atom, \<open>write_to_tokens\<close> would iterate over the characters
  of a string (each a plain string of length one) or fail on \<open>None\<close> and numbers.
\<close>

fun deparse :: "(pyfloat \<Rightarrow> string) \<Rightarrow> sexpr \<Rightarrow> error + string" where
  "deparse float_str (Lst ntl) = ebind (write_to_tokens float_str ntl) detokenize"
| "deparse float_str (Atom a) =
     (case str_of a of None \<Rightarrow> Inl TypeError
      | Some s \<Rightarrow>
          ebind (write_to_tokens float_str (map (\<lambda>c. Atom (AStr [c])) s)) detokenize)"

section \<open>Tokenizer\<close>

text \<open>
  \<open>str.split()\<close> cuts at runs of whitespace; the whitespace characters below 256 are the
  six ASCII ones, the four separators 0x1C to 0x1F, 0x85 and 0xA0.
\<close>

definition is_space :: "char \<Rightarrow> bool" where
  "is_space c = ((of_char c :: nat) \<in> {9, 10, 11, 12, 13, 28, 29, 30, 31, 32, 133, 160})"

fun split_from :: "string \<Rightarrow> string \<Rightarrow> string list" where
  "split_from w [] = (if w = [] then [] else [w])"
| "split_from w (c # cs) =
     (if is_space c then (if w = [] then split_from [] cs else w # split_from [] cs)
      else split_from (w @ [c]) cs)"

definition split_ws :: "string \<Rightarrow> string list" where
  "split_ws s = split_from [] s"

definition count_char :: "char \<Rightarrow> string \<Rightarrow> nat" where
  "count_char c s = length (filter (\<lambda>x. x = c) s)"

text \<open>
  The first loop of \<open>tokenize\<close>, on \<open>(second_pass, in_string)\<close>:
  \<^verbatim>\<open>
      for token in cmd.split():
          num_quotes = token.count('"')
          if num_quotes % 2 == 1 and not in_string: # open quote
              second_pass.append(token)
              in_string = True
          elif num_quotes % 2 == 1 and in_string: # close quote
              second_pass[-1] += ' ' + token
              in_string = False
          elif num_quotes == 0 and in_string: # middle words in quote
              second_pass[-1] += ' ' + token
          else:
              second_pass.append(token)
  \<close>
  \<open>second_pass[-1]\<close> raises IndexError on an empty list.
\<close>

definition extend_last :: "string list \<Rightarrow> string \<Rightarrow> error + string list" where
  "extend_last ts token =
     (if ts = [] then Inl IndexError else Inr (butlast ts @ [last ts @ '' '' @ token]))"

fun second_loop :: "string list \<Rightarrow> string list \<times> bool \<Rightarrow> error + string list \<times> bool" where
  "second_loop [] st = Inr st"
| "second_loop (token # ws) (second_pass, in_string) =
     (let num_quotes = count_char CHR 0x22 token in
      if num_quotes mod 2 = 1 \<and> \<not> in_string then
        second_loop ws (second_pass @ [token], True)
      else if num_quotes mod 2 = 1 \<and> in_string then
        ebind (extend_last second_pass token) (\<lambda>sp. second_loop ws (sp, False))
      else if num_quotes = 0 \<and> in_string then
        ebind (extend_last second_pass token) (\<lambda>sp. second_loop ws (sp, in_string))
      else second_loop ws (second_pass @ [token], in_string))"

text \<open>
  The second loop:
  \<^verbatim>\<open>
      for token in second_pass:
          if token[0] == '(':
              third_pass.append('(')
              if len(token) > 1:
                  third_pass.append(token[1:])
          elif token[-1] == ')':
              ct = token.count(')')
              third_pass.append(token[:-ct])
              for _ in range(ct):
                  third_pass.append(')')
          else:
              third_pass.append(token)
  \<close>
  \<open>token[0]\<close> raises IndexError on an empty token.
\<close>

fun third_loop :: "string list \<Rightarrow> error + string list" where
  "third_loop [] = Inr []"
| "third_loop (token # ts) =
     (if token = [] then Inl IndexError else
      ebind (third_loop ts) (\<lambda>rest.
        if hd token = CHR ''('' then
          Inr (''('' # (if length token > 1 then [tl token] else []) @ rest)
        else if last token = CHR '')'' then
          (let ct = count_char CHR '')'' token
           in Inr (take (length token - ct) token # replicate ct '')'' @ rest))
        else Inr (token # rest)))"

definition tokenize :: "string \<Rightarrow> error + string list" where
  "tokenize cmd =
     ebind (second_loop (split_ws cmd) ([], False)) (\<lambda>(second_pass, in_string).
       third_loop second_pass)"

section \<open>Parser\<close>

text \<open>
  \<open>int(token)\<close>: optional whitespace around, an optional sign, then decimal digits, single
  underscores allowed between digits.
\<close>

definition is_digit :: "char \<Rightarrow> bool" where
  "is_digit c = (48 \<le> (of_char c :: nat) \<and> (of_char c :: nat) \<le> 57)"

definition digit_val :: "char \<Rightarrow> nat" where
  "digit_val c = of_char c - 48"

fun digits_from :: "nat \<Rightarrow> string \<Rightarrow> nat option" where
  "digits_from n [] = Some n"
| "digits_from n [c] = (if is_digit c then Some (10 * n + digit_val c) else None)"
| "digits_from n (c # d # r) =
     (if is_digit c then digits_from (10 * n + digit_val c) (d # r)
      else if c = CHR ''_'' \<and> is_digit d then digits_from (10 * n + digit_val d) r
      else None)"

fun digits_val :: "string \<Rightarrow> nat option" where
  "digits_val [] = None"
| "digits_val (c # r) = (if is_digit c then digits_from (digit_val c) r else None)"

definition strip :: "string \<Rightarrow> string" where
  "strip s = rev (dropWhile is_space (rev (dropWhile is_space s)))"

definition py_int :: "string \<Rightarrow> int option" where
  "py_int token =
     (case strip token of
        [] \<Rightarrow> None
      | c # r \<Rightarrow>
          if c = CHR ''-'' then map_option (\<lambda>n. - int n) (digits_val r)
          else if c = CHR ''+'' then map_option int (digits_val r)
          else map_option int (digits_val (c # r)))"

text \<open>
  \<^verbatim>\<open>
  def atomize(token):
      if token[0] == '"':
          try:
              return token[1:-1].decode('string_escape')
          except AttributeError: # python 2/3 support
              return token[1:-1]
      if token == 'null':
          return None
      try:
          return int(token)
      except ValueError:
          try:
              return float(token)
          except ValueError:
              token = token[0] + token[1:].replace('-', '_')
              if token[:2] == '#:':
                  return KeyArg(token[2:])
              return Symbol(token)
  \<close>
  A \<open>str\<close> has no \<open>decode\<close>, so the quoted text is returned as it is.
\<close>

definition atomize :: "(string \<Rightarrow> pyfloat option) \<Rightarrow> string \<Rightarrow> error + atom" where
  "atomize py_float token =
     (case token of
        [] \<Rightarrow> Inl IndexError
      | c # r \<Rightarrow>
          if c = CHR 0x22 then Inr (AStr (butlast r))
          else if token = ''null'' then Inr ANone
          else case py_int token of
            Some i \<Rightarrow> Inr (AInt i)
          | None \<Rightarrow>
             (case py_float token of
                Some x \<Rightarrow> Inr (AFloat x)
              | None \<Rightarrow>
                  let t = c # replace_char CHR ''-'' CHR ''_'' r in
                  if take 2 t = ''#:'' then Inr (AKey (drop 2 t)) else Inr (ASym t)))"

text \<open>
  \<^verbatim>\<open>
  def read_from_tokens(token_list):
      if len(token_list) == 0:
          raise SyntaxError('unexpected EOF')
      token = token_list.pop(0)
      if token == '(':
          nested_list = []
          while token_list[0] != ')':
              nested_list.append(read_from_tokens(token_list))
          token_list.pop(0)
          return nested_list
      elif token == ')':
          raise SyntaxError('unexpected )')
      else:
          return atomize(token)
  \<close>
  The token list is consumed from the front; the functions return what is left of it.
  \<open>read_nested\<close> is the \<open>while\<close> loop; \<open>token_list[0]\<close> raises IndexError when the list has
  run out. The first argument bounds the depth of the calls: \<open>None\<close> says it was too
  small; \<open>parse\<close> gives twice the number of tokens and one more, which is never too small.
\<close>

fun read_from_tokens :: "(string \<Rightarrow> pyfloat option) \<Rightarrow> nat \<Rightarrow> string list
      \<Rightarrow> (error + sexpr \<times> string list) option"
and read_nested :: "(string \<Rightarrow> pyfloat option) \<Rightarrow> nat \<Rightarrow> sexpr list \<Rightarrow> string list
      \<Rightarrow> (error + sexpr list \<times> string list) option" where
  "read_from_tokens py_float 0 token_list = None"
| "read_from_tokens py_float (Suc n) [] = Some (Inl SyntaxError)"
| "read_from_tokens py_float (Suc n) (token # token_list) =
     (if token = ''('' then
        (case read_nested py_float n [] token_list of
           None \<Rightarrow> None
         | Some (Inl e) \<Rightarrow> Some (Inl e)
         | Some (Inr (nested_list, rest)) \<Rightarrow> Some (Inr (Lst nested_list, rest)))
      else if token = '')'' then Some (Inl SyntaxError)
      else (case atomize py_float token of
              Inl e \<Rightarrow> Some (Inl e)
            | Inr a \<Rightarrow> Some (Inr (Atom a, token_list))))"
| "read_nested py_float 0 nested_list token_list = None"
| "read_nested py_float (Suc n) nested_list [] = Some (Inl IndexError)"
| "read_nested py_float (Suc n) nested_list (token # token_list) =
     (if token = '')'' then Some (Inr (nested_list, token_list))
      else (case read_from_tokens py_float n (token # token_list) of
              None \<Rightarrow> None
            | Some (Inl e) \<Rightarrow> Some (Inl e)
            | Some (Inr (x, rest)) \<Rightarrow> read_nested py_float n (nested_list @ [x]) rest))"

definition parse :: "(string \<Rightarrow> pyfloat option) \<Rightarrow> string \<Rightarrow> (error + sexpr) option" where
  "parse py_float cmd =
     (case tokenize cmd of
        Inl e \<Rightarrow> Some (Inl e)
      | Inr token_list \<Rightarrow>
          map_option (map_sum id fst)
            (read_from_tokens py_float (2 * length token_list + 1) token_list))"

section \<open>Persistence\<close>

text \<open>
  The file system is a map from paths to contents, with a predicate \<open>openable\<close> that says
  on which paths \<open>codecs.open(path, 'w')\<close> succeeds (it then creates or empties the file);
  on the others it raises an OSError and the file system is left as it is.
  \<open>yaml.safe_dump\<close> of the two metadata fields is the parameter \<open>yaml_dump\<close>.
\<close>

type_synonym files = "string \<rightharpoonup> string"

text \<open>
  \<^verbatim>\<open>
          for op in self.undo_stack:
              fp.write(deparse(op) + '\n')
  \<close>
  The text written so far stays in the file when \<open>deparse\<close> raises.
\<close>

fun write_ops :: "(pyfloat \<Rightarrow> string) \<Rightarrow> sexpr list \<Rightarrow> string \<Rightarrow> error option \<times> string" where
  "write_ops float_str [] written = (None, written)"
| "write_ops float_str (c # ops) written =
     (case deparse float_str c of
        Inl e \<Rightarrow> (Some e, written)
      | Inr s \<Rightarrow> write_ops float_str ops (written @ s @ [CHR 0x0A]))"

definition yaml_header :: string where
  "yaml_header = ''# corrections metadata, YAML syntax'' @ [CHR 0x0A] @ ''---'' @ [CHR 0x0A]"

text \<open>
  \<^verbatim>\<open>
  def write_to_file(self, file=None):
      if file:
          self.file = file
      with codecs.open(self.file, 'w', encoding='utf-8') as fp:
          for op in self.undo_stack:
              fp.write(deparse(op) + '\n')
      with codecs.open((self.file + '.yaml'), 'w', encoding='utf-8') as mdfp:
          file_data = {'uuid': self.uuid, 'label_hash': self.label_hash}
          mdfp.write("""# corrections metadata, YAML syntax\n---\n""")
          mdfp.write(yaml.safe_dump(file_data, default_flow_style=False))
  \<close>
  \<open>if file\<close> is false for \<open>None\<close> and for the empty string.
\<close>

definition write_to_file :: "(pyfloat \<Rightarrow> string) \<Rightarrow> (string \<Rightarrow> string \<Rightarrow> string)
    \<Rightarrow> (string \<Rightarrow> bool) \<Rightarrow> string option
    \<Rightarrow> correction_stack \<Rightarrow> files \<Rightarrow> error option \<times> correction_stack \<times> files" where
  "write_to_file float_str yaml_dump openable path cs fsys =
     (let cs1 = (case path of None \<Rightarrow> cs
                 | Some f \<Rightarrow> if f \<noteq> [] then cs\<lparr>ops_file := f\<rparr> else cs)
      in if \<not> openable (ops_file cs1) then (Some OSError, cs1, fsys) else
         case write_ops float_str (undo_stack cs1) [] of
           (Some e, written) \<Rightarrow> (Some e, cs1, fsys(ops_file cs1 \<mapsto> written))
         | (None, written) \<Rightarrow>
             if \<not> openable (ops_file cs1 @ ''.yaml'')
             then (Some OSError, cs1, fsys(ops_file cs1 \<mapsto> written))
             else (None, cs1,
                   fsys(ops_file cs1 \<mapsto> written,
                        ops_file cs1 @ ''.yaml'' \<mapsto>
                          yaml_header @ yaml_dump (uuid cs1) (label_hash cs1))))"

text \<open>
  \<^verbatim>\<open>
  def __exit__(self, exc_type, exc_value, exc_trace):
      if exc_type is None:
          self.write_to_file()
          return True
      else:
          self.write_to_file(self.file + '.bak')
          return False
  \<close>
  \<open>raised\<close> says that the block ended by an exception. The result is the exception that
  \<open>__exit__\<close> itself raises, or the value it returns: a false value makes the \<open>with\<close>
  statement re-raise the exception of the block.
\<close>

definition exit_with :: "(pyfloat \<Rightarrow> string) \<Rightarrow> (string \<Rightarrow> string \<Rightarrow> string)
    \<Rightarrow> (string \<Rightarrow> bool) \<Rightarrow> bool
    \<Rightarrow> correction_stack \<Rightarrow> files \<Rightarrow> (error + bool) \<times> correction_stack \<times> files" where
  "exit_with float_str yaml_dump openable raised cs fsys =
     (if \<not> raised then
        (case write_to_file float_str yaml_dump openable None cs fsys of
           (Some e, cs', fsys') \<Rightarrow> (Inl e, cs', fsys')
         | (None, cs', fsys') \<Rightarrow> (Inr True, cs', fsys'))
      else
        (case write_to_file float_str yaml_dump openable (Some (ops_file cs @ ''.bak'')) cs fsys of
           (Some e, cs', fsys') \<Rightarrow> (Inl e, cs', fsys')
         | (None, cs', fsys') \<Rightarrow> (Inr False, cs', fsys')))"

text \<open>The text of a file of lines: each line and a newline.\<close>

definition file_text :: "string list \<Rightarrow> string" where
  "file_text lines = concat (map (\<lambda>s. s @ [CHR 0x0A]) lines)"

section \<open>Notions for the round trip\<close>

text \<open>
  What \<open>float(token)\<close> accepts is made of digits, signs, a point, an exponent mark,
  underscores, the letters of \<open>inf\<close>, \<open>infinity\<close> and \<open>nan\<close>, and whitespace around; a
  reader with this property is \<open>float_like\<close>.
\<close>

definition float_chars :: "char set" where
  "float_chars = set ''0123456789+-._eEiInNfFtTyYaA''"

definition float_like :: "(string \<Rightarrow> pyfloat option) \<Rightarrow> bool" where
  "float_like py_float =
     (\<forall>token. py_float token \<noteq> None \<longrightarrow> (\<forall>c \<in> set token. c \<in> float_chars \<or> is_space c))"

text \<open>
  A field name that survives the round trip: not empty, without whitespace, double quote,
  parenthesis or hyphen.
\<close>

definition key_ok :: "string \<Rightarrow> bool" where
  "key_ok k =
     (k \<noteq> [] \<and> (\<forall>c \<in> set k. \<not> is_space c \<and> c \<notin> {CHR 0x22, CHR ''('', CHR '')'', CHR ''-''}))"

text \<open>
  A string value that survives: no double quote, no whitespace other than the space, and
  no two spaces in a row.
\<close>

fun single_spaced :: "string \<Rightarrow> bool" where
  "single_spaced (c # d # r) = (\<not> (c = CHR '' '' \<and> d = CHR '' '') \<and> single_spaced (d # r))"
| "single_spaced _ = True"

definition str_ok :: "string \<Rightarrow> bool" where
  "str_ok s =
     (CHR 0x22 \<notin> set s \<and> (\<forall>c \<in> set s. is_space c \<longrightarrow> c = CHR '' '') \<and> single_spaced s)"

fun value_ok :: "atom \<Rightarrow> bool" where
  "value_ok ANone = True"
| "value_ok (AInt i) = True"
| "value_ok (AStr s) = str_ok s"
| "value_ok _ = False"

text \<open>A value written just before a closing parenthesis must not hold one itself.\<close>

fun final_ok :: "atom \<Rightarrow> bool" where
  "final_ok (AStr s) = (CHR '')'' \<notin> set s)"
| "final_ok _ = True"

definition dict_ok :: "(string \<times> atom) list \<Rightarrow> bool" where
  "dict_ok d = (\<forall>(k, a) \<in> set d. key_ok k \<and> value_ok a)"

text \<open>\<open>' '.join(ws)\<close>, and the cut of a text at every space.\<close>

fun join :: "string list \<Rightarrow> string" where
  "join [] = []"
| "join (w # ws) = w @ concat (map ((#) CHR '' '') ws)"

fun pieces :: "string \<Rightarrow> string list" where
  "pieces [] = [[]]"
| "pieces (c # r) =
     (if c = CHR '' '' then [] # pieces r else (c # hd (pieces r)) # tl (pieces r))"

text \<open>A word of \<open>cmd.split()\<close>: not empty, without whitespace.\<close>

definition word :: "string \<Rightarrow> bool" where
  "word w = (w \<noteq> [] \<and> (\<forall>c \<in> set w. \<not> is_space c))"

text \<open>
  The words of one token as the first loop of \<open>tokenize\<close> sees them: a single word with an
  even number of quotes, or a first and a last word with an odd number and words without
  quotes between them.
\<close>

definition quotes :: "string \<Rightarrow> nat" where
  "quotes w = count_char CHR 0x22 w"

fun closed_words :: "string list \<Rightarrow> bool" where
  "closed_words [] = False"
| "closed_words [w] = (word w \<and> even (quotes w))"
| "closed_words (w # ws) =
     (word w \<and> odd (quotes w) \<and> word (last ws) \<and> odd (quotes (last ws)) \<and>
      (\<forall>m \<in> set (butlast ws). word m \<and> quotes m = 0))"

definition chunk :: "string \<Rightarrow> bool" where
  "chunk c = (\<exists>ws. closed_words ws \<and> join ws = c)"

text \<open>
  The texts between the spaces of a detokenized list: \<open>pre\<close> glued before the first token
  and \<open>post\<close> after the last.
\<close>

fun attach :: "string \<Rightarrow> string list \<Rightarrow> string \<Rightarrow> string list" where
  "attach pre [] post = []"
| "attach pre [t] post = [pre @ t @ post]"
| "attach pre (t # u # r) post = (pre @ t) # attach [] (u # r) post"

text \<open>
  A token that the second loop of \<open>tokenize\<close> leaves alone and after which \<open>detokenize\<close>
  puts a space: it does not begin with \<open>(\<close> and does not end with a parenthesis.
\<close>

definition tok_plain :: "string \<Rightarrow> bool" where
  "tok_plain t = (t \<noteq> [] \<and> hd t \<noteq> CHR ''('' \<and> last t \<noteq> CHR '')'' \<and> last t \<noteq> CHR ''('')"

text \<open>A token that may stand before closing parentheses: it holds none itself.\<close>

definition tok_final :: "string \<Rightarrow> bool" where
  "tok_final t = (t \<noteq> [] \<and> hd t \<noteq> CHR ''('' \<and> CHR '')'' \<notin> set t \<and> last t \<noteq> CHR ''('')"

text \<open>The text between two tokens of a detokenized list.\<close>

definition spaced :: "string list \<Rightarrow> string" where
  "spaced ts = concat (map ((#) CHR '' '') ts)"

text \<open>The tokens of a field name and of a value that is \<open>value_ok\<close>, and of a dict.\<close>

definition key_token :: "string \<Rightarrow> string" where
  "key_token k = ''#:'' @ hd k # replace_char CHR ''_'' CHR ''-'' (tl k)"

fun value_token :: "atom \<Rightarrow> string" where
  "value_token (AInt i) = str_int i"
| "value_token (AStr s) = CHR 0x22 # s @ [CHR 0x22]"
| "value_token _ = ''null''"

definition dict_tokens :: "(string \<times> atom) list \<Rightarrow> string list" where
  "dict_tokens d = concat (map (\<lambda>(k, a). [key_token k, value_token a]) d)"

text \<open>A text without whitespace, double quote or parenthesis.\<close>

definition clean :: "string \<Rightarrow> bool" where
  "clean t = (\<forall>c \<in> set t. \<not> is_space c \<and> c \<notin> {CHR 0x22, CHR ''('', CHR '')''})"

text \<open>
  A list of tokens that stands between parentheses: every one a chunk, plain before the
  last, the last one final.
\<close>

definition toks_ok :: "string list \<Rightarrow> bool" where
  "toks_ok ts =
     ((\<forall>t \<in> set ts. chunk t) \<and> (\<forall>t \<in> set (butlast ts). tok_plain t) \<and>
      (ts \<noteq> [] \<longrightarrow> tok_final (last ts)))"

text \<open>
  The token of a symbol, and what makes a symbol survive the round trip: its token is
  clean, is not \<open>null\<close>, is no \<open>int\<close> literal, holds a character that no \<open>float\<close> literal
  holds, and the symbol does not begin like a keyword and has no hyphen after its first
  character. The names the generators use are of that kind.
\<close>

definition sym_token :: "string \<Rightarrow> string" where
  "sym_token s = hd s # replace_char CHR ''_'' CHR ''-'' (tl s)"

definition sym_ok :: "string \<Rightarrow> bool" where
  "sym_ok s =
     (s \<noteq> [] \<and> clean (sym_token s) \<and> sym_token s \<noteq> ''null'' \<and> py_int (sym_token s) = None \<and>
      (\<exists>x \<in> set (sym_token s). x \<notin> float_chars) \<and> CHR ''-'' \<notin> set (tl s) \<and>
      take 2 s \<noteq> ''#:'')"

definition generator_names :: "string list" where
  "generator_names = map fst INVERSE_TABLE @ [''interval'', ''interval_pair'', ''labels'']"

text \<open>A token that \<open>read_from_tokens\<close> turns into the element \<open>x\<close>.\<close>

definition reads :: "(string \<Rightarrow> pyfloat option) \<Rightarrow> string \<Rightarrow> sexpr \<Rightarrow> bool" where
  "reads py_float t x =
     (t \<noteq> ''('' \<and> t \<noteq> '')'' \<and> (\<exists>a. x = Atom a \<and> atomize py_float t = Inr a))"

section \<open>Example inputs\<close>

text \<open>Two adjacent records, and the commands the generators build on them.\<close>

definition two_labels :: "label list" where
  "two_labels =
     [[(''start'', AInt 1), (''stop'', AInt 2), (''name'', AStr ''a'')],
      [(''start'', AInt 2), (''stop'', AInt 3), (''name'', AStr ''b'')]]"

definition rename_cmd :: sexpr where
  "rename_cmd = gen_code ''set_name'' ''interval''
     [(''index'', AInt 0), (''name'', AStr ''a'')] [(''new_name'', AStr ''q'')]"

definition rename_cmd_swapped :: sexpr where
  "rename_cmd_swapped = gen_code ''set_name'' ''interval''
     [(''index'', AInt 0), (''name'', AStr ''q'')] [(''new_name'', AStr ''a'')]"

text \<open>A new stack on the two records (\<open>load = False\<close>), with nothing pushed.\<close>

definition empty_stack :: correction_stack where
  "empty_stack =
     \<lparr>labels = two_labels, undo_stack = [], redo_stack = [],
      ops_file = ''ops'', uuid = ''0'', label_hash = ''0''\<rparr>"

text \<open>The stack after \<open>rename(0, 'q')\<close> on the new stack.\<close>

definition renamed_stack :: correction_stack where
  "renamed_stack =
     \<lparr>labels =
        [[(''start'', AInt 1), (''stop'', AInt 2), (''name'', AStr ''q'')],
         [(''start'', AInt 2), (''stop'', AInt 3), (''name'', AStr ''b'')]],
      undo_stack = [rename_cmd], redo_stack = [],
      ops_file = ''ops'', uuid = ''0'', label_hash = ''0''\<rparr>"




text \<open>
  Stand-ins for the three library functions the model takes as parameters: a \<open>float\<close>
  reader that knows the literal \<open>1.5\<close> only, a \<open>float\<close> printer, and a YAML dump of the
  two metadata fields.
\<close>

definition example_py_float :: "string \<Rightarrow> pyfloat option" where
  "example_py_float token = (if token = ''1.5'' then Some (Finite (3 / 2)) else None)"

definition example_float_str :: "pyfloat \<Rightarrow> string" where
  "example_float_str x = ''1.5''"

definition example_yaml_dump :: "string \<Rightarrow> string \<Rightarrow> string" where
  "example_yaml_dump u h =
     ''label_hash: '' @ h @ [CHR 0x0A] @ ''uuid: '' @ u @ [CHR 0x0A]"

text \<open>
  \<open>example_yaml_dump\<close> is what \<open>yaml.safe_dump\<close> writes in block style when both strings
  are plain scalars (keys sorted, no quotes), as a UUID and a SHA-1 digest in hexadecimal
  that begins with a letter are.
\<close>

text \<open>The serialized rename command.\<close>

definition rename_text :: string where
  "rename_text =
     ''(set-name #:labels labels #:target (interval #:index 0 #:name \"a\") #:new-name \"q\")''"

text \<open>A second command: move the stop of record 1 from 3 to 4.\<close>

definition set_stop_cmd :: sexpr where
  "set_stop_cmd = gen_code ''set_stop'' ''interval''
     [(''index'', AInt 1), (''stop'', AInt 3)] [(''new_stop'', AInt 4)]"

definition set_stop_text :: string where
  "set_stop_text =
     ''(set-stop #:labels labels #:target (interval #:index 1 #:stop 3) #:new-stop 4)''"

text \<open>
  The stack after \<open>rename(0, 'q')\<close> and \<open>set_stop(1, 4)\<close>, with a UUID and a label hash
  as \<open>__init__\<close> makes them.
\<close>

definition saved_stack :: correction_stack where
  "saved_stack =
     \<lparr>labels =
        [[(''start'', AInt 1), (''stop'', AInt 2), (''name'', AStr ''q'')],
         [(''start'', AInt 2), (''stop'', AInt 4), (''name'', AStr ''b'')]],
      undo_stack = [rename_cmd, set_stop_cmd], redo_stack = [],
      ops_file = ''ops'', uuid = ''16fd2706-8baf-433b-82eb-8c7fada847da'',
      label_hash = ''da39a3ee5e6b4b0d3255bfef95601890afd80709''\<rparr>"

text \<open>A file system in which every path but the empty one can be opened for writing.\<close>

definition any_path :: "string \<Rightarrow> bool" where
  "any_path p = (p \<noteq> [])"

text \<open>One in which nothing can be opened under the directory \<open>ro/\<close>.\<close>

definition outside_ro :: "string \<Rightarrow> bool" where
  "outside_ro p = (p \<noteq> [] \<and> take 3 p \<noteq> ''ro/'')"

text \<open>Renaming record 0 to a name with a space, and to one with two spaces in a row.\<close>

definition spaced_rename_cmd :: sexpr where
  "spaced_rename_cmd = gen_code ''set_name'' ''interval''
     [(''index'', AInt 0), (''name'', AStr ''a'')] [(''new_name'', AStr ''big bird'')]"

definition spaced_rename_text :: string where
  "spaced_rename_text =
     ''(set-name #:labels labels #:target (interval #:index 0 #:name \"a\") #:new-name \"big bird\")''"

definition two_spaces_cmd :: sexpr where
  "two_spaces_cmd = gen_code ''set_name'' ''interval''
     [(''index'', AInt 0), (''name'', AStr ''a'')] [(''new_name'', AStr ''big  bird'')]"

definition two_spaces_text :: string where
  "two_spaces_text =
     ''(set-name #:labels labels #:target (interval #:index 0 #:name \"a\") #:new-name \"big  bird\")''"

section \<open>Properties\<close>

subsection \<open>Inversion\<close>

lemma swap_at_keeps:
  assumes "swap_at tpos i n (xs, t, l) = Inr (xs', t', l')" "0 < tpos"
  shows "length xs' = length xs \<and> xs' ! 0 = xs ! 0"
  using assms by (cases t) (auto split: option.splits if_splits simp: Let_def nth_list_update)

lemma invert_loop_keeps:
  assumes "invert_loop tpos is (xs, t, l) = Inr (xs', t', l')" "0 < tpos"
  shows "length xs' = length xs \<and> xs' ! 0 = xs ! 0"
  using assms
proof (induction "is" arbitrary: xs t l)
  case Nil
  then show ?case by simp
next
  case (Cons i "is")
  show ?case
  proof (cases "new_key (xs ! i)")
    case None
    then show ?thesis using Cons by simp
  next
    case (Some n)
    then obtain st where st: "swap_at tpos i n (xs, t, l) = Inr st"
      using Cons.prems(1) by (cases "swap_at tpos i n (xs, t, l)") auto
    obtain xs1 t1 l1 where st1: "st = (xs1, t1, l1)" by (cases st) auto
    have "invert_loop tpos is (xs1, t1, l1) = Inr (xs', t', l')"
      using Cons.prems(1) Some st st1 by simp
    from Cons.IH[OF this Cons.prems(2)] swap_at_keeps[OF st[unfolded st1] Cons.prems(2)]
    show ?thesis by simp
  qed
qed

text \<open>
  C3 (as the code has it). \<open>invert\<close> builds a new top-level list, but it makes its swaps
  in the argument: when the call returns, the argument still has its own head, and its
  elements after the head are the very elements of the returned tree after its new head.
  So the argument is changed whenever a swap changed a value.
\<close>

theorem invert_writes_argument:
  assumes "invert c = Inr (c', r)"
  shows "\<exists>x xs ys inv_op. c = Lst (x # xs) \<and> c' = Lst (x # ys) \<and>
           r = Lst (Atom (ASym inv_op) # ys) \<and> inverse_of x = Inr inv_op \<and>
           length ys = length xs"
proof (cases c)
  case (Atom a)
  then show ?thesis using assms by (auto split: option.splits if_splits)
next
  case (Lst zs)
  with assms have ne: "zs \<noteq> []" by (auto split: if_splits)
  then obtain x xs where zs: "zs = x # xs" by (cases zs) auto
  from assms Lst zs obtain inv_op where io: "inverse_of x = Inr inv_op"
    by (cases "inverse_of x") auto
  from assms Lst zs io obtain j where j: "list_index zs ''target'' = Some j" "Suc j < length zs"
    by (auto split: option.splits if_splits)
  from assms Lst zs io j obtain xs' t l where
    lp: "invert_loop (Suc j) [0..<length zs] (zs, zs ! Suc j, True) = Inr (xs', t, l)"
    and res: "c' = Lst xs'" "r = Lst (Atom (ASym inv_op) # tl xs')"
    by (cases "invert_loop (Suc j) [0..<length zs] (zs, zs ! Suc j, True)")
       (auto split: if_splits)
  from invert_loop_keeps[OF lp] have k: "length xs' = length zs" "xs' ! 0 = zs ! 0" by auto
  then obtain ys where ys: "xs' = x # ys" using zs by (cases xs') auto
  show ?thesis using Lst zs io res ys k by auto
qed

lemma invert_rename_cmd:
  "invert rename_cmd = Inr (rename_cmd_swapped, rename_cmd_swapped)"
  by code_simp

theorem invert_writes_argument_witness:
  "invert rename_cmd = Inr (rename_cmd_swapped, rename_cmd_swapped) \<and>
   (\<exists>x xs ys inv_op. rename_cmd = Lst (x # xs) \<and> rename_cmd_swapped = Lst (x # ys) \<and>
      rename_cmd_swapped = Lst (Atom (ASym inv_op) # ys) \<and>
      inverse_of x = Inr inv_op \<and> length ys = length xs)"
  using invert_writes_argument [OF invert_rename_cmd] invert_rename_cmd by simp

text \<open>
  C3 (as stated) fails: after \<open>invert\<close> of the command renaming record 0 from \<open>a\<close> to
  \<open>q\<close>, the argument holds the swapped names and differs from its value before the call.
\<close>

theorem invert_mutates_counterexample:
  "map_sum id fst (invert rename_cmd) = Inr rename_cmd_swapped
   \<and> rename_cmd_swapped \<noteq> rename_cmd"
  by code_simp

text \<open>
  C4 fails on a generated command: merging records 0 and 1 with the new name \<open>stop\<close>.
  The first inversion looks the field \<open>stop\<close> up in the target with \<open>list.index\<close>, finds
  the value \<open>stop\<close> just written for \<open>name\<close> instead of the key, and swaps the key out;
  inverting the result raises ValueError.
\<close>

theorem invert_twice_merge_named_stop:
  "ebind (ebind (codegen_merge_next two_labels 0 (AStr ''stop'')) invert_tree) invert_tree
     = Inl ValueError"
  by code_simp

subsection \<open>Undo, redo and peek\<close>


text \<open>
  C1 fails on a generated command: on the two records, \<open>delete(-1)\<close> removes record
  \<open>b\<close>; \<open>undo\<close> runs \<open>create\<close> with the same index, and \<open>labels.insert(-1, ...)\<close> puts the
  record before the last one, giving \<open>[b, a]\<close>; \<open>redo\<close> runs \<open>labels.pop(-1)\<close> and
  removes \<open>a\<close>. None of the three calls raises, and the labels after \<open>redo\<close> are \<open>[b]\<close>
  where they were \<open>[a]\<close> after the push.
\<close>

theorem push_undo_redo_delete_last:
  "(case cs_delete empty_stack (- 1) of (e1, cs1) \<Rightarrow>
    case undo cs1 of (e2, cs2) \<Rightarrow>
    case redo cs2 of (e3, cs3) \<Rightarrow>
      e1 = None \<and> e2 = None \<and> e3 = None \<and>
      labels cs1 = [[(''start'', AInt 1), (''stop'', AInt 2), (''name'', AStr ''a'')]] \<and>
      labels cs2 = [[(''start'', AInt 2), (''stop'', AInt 3), (''name'', AStr ''b'')],
                    [(''start'', AInt 1), (''stop'', AInt 2), (''name'', AStr ''a'')]] \<and>
      labels cs3 = [[(''start'', AInt 2), (''stop'', AInt 3), (''name'', AStr ''b'')]])"
  by code_simp

text \<open>
  C2 (as the code has it). \<open>undo\<close> on an empty undo stack and \<open>redo\<close> on an empty redo
  stack raise IndexError and leave the object (labels and both stacks) as it was.
  \<open>peek(i)\<close> raises IndexError exactly when \<open>i\<close> is outside \<open>[-n, n)\<close> for \<open>n\<close> commands on
  the undo stack; inside, it returns the command at \<open>i\<close>, a negative \<open>i\<close> counting from
  the top.
\<close>

theorem bounds_raise_index_error:
  "(undo_stack cs = [] \<longrightarrow> undo cs = (Some IndexError, cs)) \<and>
   (redo_stack cs = [] \<longrightarrow> redo cs = (Some IndexError, cs)) \<and>
   (peek cs i = Inl IndexError \<longleftrightarrow>
      (i < - int (length (undo_stack cs)) \<or> int (length (undo_stack cs)) \<le> i)) \<and>
   (0 \<le> i \<and> i < int (length (undo_stack cs)) \<longrightarrow>
      peek cs i = Inr (undo_stack cs ! nat i)) \<and>
   (- int (length (undo_stack cs)) \<le> i \<and> i < 0 \<longrightarrow>
      peek cs i = Inr (undo_stack cs ! nat (int (length (undo_stack cs)) + i)))"
  by (auto simp: undo_def redo_def peek_def py_get_def py_pos_def Let_def split: option.splits)

theorem bounds_raise_index_error_witness:
  "undo empty_stack = (Some IndexError, empty_stack) \<and>
   redo renamed_stack = (Some IndexError, renamed_stack) \<and>
   peek renamed_stack 1 = Inl IndexError \<and>
   peek renamed_stack 0 = Inr rename_cmd \<and>
   peek renamed_stack (- 1) = Inr rename_cmd"
  using bounds_raise_index_error [of empty_stack 0] bounds_raise_index_error [of renamed_stack 0]
    bounds_raise_index_error [of renamed_stack 1] bounds_raise_index_error [of renamed_stack "- 1"]
  by (simp add: empty_stack_def renamed_stack_def)

text \<open>
  C2 (as stated) fails: on a new stack, \<open>undo()\<close>, \<open>redo()\<close> and \<open>peek(0)\<close> each raise
  IndexError.
\<close>

theorem bounds_counterexample:
  "fst (undo empty_stack) = Some IndexError \<and> fst (redo empty_stack) = Some IndexError
   \<and> peek empty_stack 0 = Inl IndexError"
  by code_simp







subsection \<open>The split primitive\<close>



















subsection \<open>Keyword arguments of a Form\<close>

lemma eval_pairs_bad:
  "eval_pairs env args (kw, bad) L = (Inr (kw', bad'), L') \<Longrightarrow>
   bad \<or> (\<exists>(k, x) \<in> set (grouper args). \<not> is_string k) \<Longrightarrow> bad'"
proof (induction args arbitrary: kw bad L rule: grouper.induct)
  case 1
  then show ?case by simp
next
  case (2 k)
  then show ?case by (cases k) (auto split: option.splits)
next
  case (3 k x rest)
  show ?case
  proof (cases k)
    case (Lst ys)
    then show ?thesis using 3(2) by (auto split: prod.splits sum.splits)
  next
    case (Atom a)
    obtain r L1 where e: "evaluate env x L = (r, L1)" by (cases "evaluate env x L") auto
    show ?thesis
    proof (cases r)
      case (Inl err)
      then show ?thesis using 3(2) e by simp
    next
      case (Inr v)
      show ?thesis
      proof (cases "str_of a")
        case None
        then have "eval_pairs env rest (kw, True) L1 = (Inr (kw', bad'), L')"
          using 3(2) e Inr Atom by simp
        from 3(1)[OF this] show ?thesis by simp
      next
        case (Some s)
        then have "eval_pairs env rest (dict_set s v kw, bad) L1 = (Inr (kw', bad'), L')"
          using 3(2) e Inr Atom by simp
        moreover have "bad \<or> (\<exists>(k, x) \<in> set (grouper rest). \<not> is_string k)"
          using 3(3) Atom Some by auto
        ultimately show ?thesis using 3(1) by blast
      qed
    qed
  qed
qed

lemma non_string_key_fails:
  assumes "\<exists>(k, x) \<in> set (grouper args). \<not> is_string k"
  shows "\<exists>e. fst (evaluate env (Lst (h # args)) L) = Inl e"
proof (cases "evaluate env h L")
  case (Pair r L1)
  show ?thesis
  proof (cases r)
    case (Inl e)
    then show ?thesis using Pair by simp
  next
    case (Inr f)
    show ?thesis
    proof (cases "eval_pairs env args ([], False) L1")
      case p: (Pair r2 L2)
      show ?thesis
      proof (cases r2)
        case (Inl e)
        then show ?thesis using Pair Inr p by simp
      next
        case r2: (Inr kb)
        obtain kw bad where kb: "kb = (kw, bad)" by (cases kb) auto
        from eval_pairs_bad[OF p[unfolded r2 kb]] assms have bad by blast
        then show ?thesis using Pair Inr p r2 kb by simp
      qed
    qed
  qed
qed

lemma self_eval: "self_evaluating x \<Longrightarrow> \<exists>a. evaluate env x L = (Inr (VAtom a), L)"
  by (cases x rule: self_evaluating.cases) auto

lemma eval_pairs_self:
  "\<forall>(k, x) \<in> set (grouper args). self_evaluating x \<Longrightarrow>
   (\<exists>kw' bad'. eval_pairs env args (kw, bad) L = (Inr (kw', bad'), L)) \<or>
   eval_pairs env args (kw, bad) L = (Inl TypeError, L)"
proof (induction args arbitrary: kw bad rule: grouper.induct)
  case 1
  then show ?case by simp
next
  case (2 k)
  then show ?case by (cases k) (auto split: option.splits)
next
  case (3 k x rest)
  from 3 have sx: "self_evaluating x" by simp
  then obtain a where a: "evaluate env x L = (Inr (VAtom a), L)" using self_eval by blast
  from 3 have r: "\<forall>(k, x) \<in> set (grouper rest). self_evaluating x" by simp
  show ?case using 3(1)[OF r] a
    by (cases k) (auto split: option.splits)
qed

lemma non_string_key_type_error:
  assumes "\<exists>(k, x) \<in> set (grouper args). \<not> is_string k"
    and "\<forall>(k, x) \<in> set (grouper args). self_evaluating x"
    and "evaluate env h L = (Inr f, L)"
  shows "evaluate env (Lst (h # args)) L = (Inl TypeError, L)"
proof -
  from eval_pairs_self[OF assms(2), of env "[]" False L]
  show ?thesis
  proof
    assume "\<exists>kw' bad'. eval_pairs env args ([], False) L = (Inr (kw', bad'), L)"
    then obtain kw' bad' where e: "eval_pairs env args ([], False) L = (Inr (kw', bad'), L)" by blast
    from eval_pairs_bad[OF e] assms(1) have bad' by blast
    then show ?thesis using e assms(3) by simp
  next
    assume "eval_pairs env args ([], False) L = (Inl TypeError, L)"
    then show ?thesis using assms(3) by simp
  qed
qed

lemma eval_pairs_strings:
  "\<forall>(k, x) \<in> set (grouper args). is_string k \<Longrightarrow>
   eval_pairs env args (kw, bad) L =
     (case eval_values env (values_of args) L of
        (Inl e, L') \<Rightarrow> (Inl e, L')
      | (Inr vs, L') \<Rightarrow> (Inr (dict_update kw (zip (names args) vs), bad), L'))"
proof (induction args arbitrary: kw bad L rule: grouper.induct)
  case 1
  then show ?case by (simp add: values_of_def names_def dict_update_def)
next
  case (2 k)
  then obtain a s where k: "k = Atom a" "str_of a = Some s" by (cases k) auto
  then have "name_of k = s" by (cases a) auto
  then show ?case using k by (simp add: values_of_def names_def dict_update_def)
next
  case (3 k x rest)
  then obtain a s where k: "k = Atom a" "str_of a = Some s" by (cases k) auto
  then have n: "name_of k = s" by (cases a) auto
  have r: "\<forall>(k, x) \<in> set (grouper rest). is_string k" using 3(2) by simp
  obtain res L1 where e: "evaluate env x L = (res, L1)" by (cases "evaluate env x L") auto
  show ?case
  proof (cases res)
    case (Inl err)
    then show ?thesis using e k by (simp add: values_of_def names_def)
  next
    case (Inr v)
    have "eval_pairs env (k # x # rest) (kw, bad) L = eval_pairs env rest (dict_set s v kw, bad) L1"
      using e Inr k by simp
    also have "\<dots> = (case eval_values env (values_of rest) L1 of
        (Inl e, L') \<Rightarrow> (Inl e, L')
      | (Inr vs, L') \<Rightarrow> (Inr (dict_update (dict_set s v kw) (zip (names rest) vs), bad), L'))"
      using 3(1)[OF r] .
    finally show ?thesis using e Inr n
      by (auto simp: values_of_def names_def dict_update_def split: prod.splits sum.splits)
  qed
qed

text \<open>
  C9 (as the code has it). The elements after the head are read in pairs (name, value).
  When every element in a name position is a string, of whichever class (\<open>KeyArg\<close>,
  \<open>Symbol\<close> or plain \<open>str\<close>), the Form evaluates its head, then its values in order, and
  calls the head's value with the keyword arguments named by those strings (a later
  equal name replacing an earlier one); an error of the head or of a value ends the
  evaluation. When some element in a name position is not a string (a number, \<open>None\<close> or
  a Form), evaluation fails: with TypeError when the head evaluates and the values are
  atoms that evaluate to themselves.
\<close>

theorem names_are_strings:
  "((\<forall>(k, x) \<in> set (grouper args). is_string k) \<longrightarrow>
      evaluate env (Lst (h # args)) L =
        (case evaluate env h L of
           (Inl e, L1) \<Rightarrow> (Inl e, L1)
         | (Inr f, L1) \<Rightarrow>
            (case eval_values env (values_of args) L1 of
               (Inl e, L2) \<Rightarrow> (Inl e, L2)
             | (Inr vs, L2) \<Rightarrow> call f (dict_update [] (zip (names args) vs)) L2))) \<and>
   ((\<exists>(k, x) \<in> set (grouper args). \<not> is_string k) \<longrightarrow>
      (\<exists>e. fst (evaluate env (Lst (h # args)) L) = Inl e) \<and>
      ((\<forall>(k, x) \<in> set (grouper args). self_evaluating x) \<and> evaluate env h L = (Inr f', L)
         \<longrightarrow> evaluate env (Lst (h # args)) L = (Inl TypeError, L)))"
proof (intro conjI impI)
  assume a: "\<forall>(k, x) \<in> set (grouper args). is_string k"
  show "evaluate env (Lst (h # args)) L =
        (case evaluate env h L of
           (Inl e, L1) \<Rightarrow> (Inl e, L1)
         | (Inr f, L1) \<Rightarrow>
            (case eval_values env (values_of args) L1 of
               (Inl e, L2) \<Rightarrow> (Inl e, L2)
             | (Inr vs, L2) \<Rightarrow> call f (dict_update [] (zip (names args) vs)) L2))"
    by (auto simp: eval_pairs_strings[OF a] split: prod.splits sum.splits)
next
  assume "\<exists>(k, x) \<in> set (grouper args). \<not> is_string k"
  then show "\<exists>e. fst (evaluate env (Lst (h # args)) L) = Inl e"
    by (rule non_string_key_fails)
next
  assume "\<exists>(k, x) \<in> set (grouper args). \<not> is_string k"
    and "(\<forall>(k, x) \<in> set (grouper args). self_evaluating x) \<and> evaluate env h L = (Inr f', L)"
  then show "evaluate env (Lst (h # args)) L = (Inl TypeError, L)"
    using non_string_key_type_error by blast
qed

theorem names_are_strings_witness:
  "evaluate make_env
     (Lst [Atom (ASym ''interval''), Atom (ASym ''index''), Atom (AInt 3),
           Atom (AStr ''name''), Atom (AStr ''x''), Atom (AKey ''stop'')]) two_labels
     = (Inr (VDict [(''index'', VAtom (AInt 3)), (''name'', VAtom (AStr ''x'')),
                    (''stop'', VAtom ANone)]), two_labels) \<and>
   (\<exists>e. fst (evaluate make_env (Lst [Atom (ASym ''interval''), Atom (AInt 3), Atom (AInt 4)])
            two_labels) = Inl e) \<and>
   evaluate make_env (Lst [Atom (ASym ''interval''), Atom (AInt 3), Atom (AInt 4)]) two_labels
     = (Inl TypeError, two_labels)"
proof -
  let ?args = "[Atom (ASym ''index''), Atom (AInt 3), Atom (AStr ''name''), Atom (AStr ''x''),
                Atom (AKey ''stop'')]"
  have 0: "\<forall>(k, x) \<in> set (grouper ?args). is_string k" by simp
  have 1: "\<exists>(k, x) \<in> set (grouper [Atom (AInt 3), Atom (AInt 4)]). \<not> is_string k" by simp
  have 2: "\<forall>(k, x) \<in> set (grouper [Atom (AInt 3), Atom (AInt 4)]). self_evaluating x" by simp
  have 3: "evaluate make_env (Atom (ASym ''interval'')) two_labels
             = (Inr (VProc DictCtor), two_labels)"
    by (simp add: make_env_def dict_get_def)
  have a: "evaluate make_env (Lst (Atom (ASym ''interval'') # ?args)) two_labels
     = (Inr (VDict [(''index'', VAtom (AInt 3)), (''name'', VAtom (AStr ''x'')),
                    (''stop'', VAtom ANone)]), two_labels)"
    using names_are_strings [of ?args make_env "Atom (ASym ''interval'')" two_labels] 0 3
    by (simp add: values_of_def names_def dict_update_def dict_set_def)
  have b: "(\<exists>e. fst (evaluate make_env (Lst [Atom (ASym ''interval''), Atom (AInt 3), Atom (AInt 4)])
            two_labels) = Inl e) \<and>
   evaluate make_env (Lst [Atom (ASym ''interval''), Atom (AInt 3), Atom (AInt 4)]) two_labels
     = (Inl TypeError, two_labels)"
    using names_are_strings [of "[Atom (AInt 3), Atom (AInt 4)]" make_env
        "Atom (ASym ''interval'')" two_labels "VProc DictCtor"] 1 2 3 by blast
  show ?thesis using a b by simp
qed

text \<open>
  C9 (as stated) fails: in \<open>(interval index 3)\<close> the name position holds the Symbol
  \<open>index\<close>, not a keyword-name, and evaluation returns the dict \<open>{'index': 3}\<close>.
\<close>

theorem symbol_as_name_counterexample:
  "(\<forall>s. Atom (ASym ''index'') \<noteq> Atom (AKey s)) \<and>
   evaluate make_env (Lst [Atom (ASym ''interval''), Atom (ASym ''index''), Atom (AInt 3)])
     two_labels = (Inr (VDict [(''index'', VAtom (AInt 3))]), two_labels)"
  by (simp add: make_env_def dict_get_def dict_set_def)

subsection \<open>Tokenizer\<close>

lemma split_from_nonempty: "x \<in> set (split_from w s) \<Longrightarrow> x \<noteq> []"
  by (induction s arbitrary: w) (auto split: if_splits)

lemma second_loop_total:
  assumes "\<forall>w \<in> set ws. w \<noteq> []" "\<forall>t \<in> set sp. t \<noteq> []" "b \<longrightarrow> sp \<noteq> []"
  shows "\<exists>sp' b'. second_loop ws (sp, b) = Inr (sp', b') \<and> (\<forall>t \<in> set sp'. t \<noteq> [])"
  using assms
proof (induction ws arbitrary: sp b)
  case Nil
  then show ?case by simp
next
  case (Cons w ws)
  have el: "sp \<noteq> [] \<Longrightarrow> \<exists>sp1. extend_last sp w = Inr sp1 \<and> sp1 \<noteq> [] \<and> (\<forall>t \<in> set sp1. t \<noteq> [])"
    using Cons.prems(2) by (auto simp: extend_last_def dest: in_set_butlastD)
  have ap: "\<forall>t \<in> set (sp @ [w]). t \<noteq> []" using Cons.prems by auto
  have ws: "\<forall>w \<in> set ws. w \<noteq> []" using Cons.prems by auto
  consider (op) "count_char CHR 0x22 w mod 2 = 1 \<and> \<not> b"
    | (cl) "count_char CHR 0x22 w mod 2 = 1 \<and> b"
    | (mid) "count_char CHR 0x22 w mod 2 \<noteq> 1 \<and> count_char CHR 0x22 w = 0 \<and> b"
    | (other) "count_char CHR 0x22 w mod 2 \<noteq> 1 \<and> \<not> (count_char CHR 0x22 w = 0 \<and> b)"
    by blast
  then show ?case
  proof cases
    case op
    then show ?thesis using Cons.IH[OF ws ap, of True] by (simp add: Let_def)
  next
    case cl
    then obtain sp1 where s1: "extend_last sp w = Inr sp1" "sp1 \<noteq> []" "\<forall>t \<in> set sp1. t \<noteq> []"
      using el Cons.prems(3) by blast
    show ?thesis using cl s1 Cons.IH[OF ws s1(3), of False] by (simp add: Let_def)
  next
    case mid
    then obtain sp1 where s1: "extend_last sp w = Inr sp1" "sp1 \<noteq> []" "\<forall>t \<in> set sp1. t \<noteq> []"
      using el Cons.prems(3) by blast
    show ?thesis using mid s1 Cons.IH[OF ws s1(3), of b] by (simp add: Let_def)
  next
    case other
    have "b \<longrightarrow> sp @ [w] \<noteq> []" by simp
    then show ?thesis using other Cons.IH[OF ws ap, of b] by (auto simp: Let_def)
  qed
qed

lemma third_loop_total: "\<forall>t \<in> set ts. t \<noteq> [] \<Longrightarrow> \<exists>us. third_loop ts = Inr us"
  by (induction ts) (auto simp: Let_def)

text \<open>
  C7 (as the code has it). The tokenizer never raises: on every command text, also one in
  which a quoted region is opened and never closed, it returns a token list.
\<close>

theorem tokenize_total: "\<exists>token_list. tokenize cmd = Inr token_list"
proof -
  have "\<forall>w \<in> set (split_ws cmd). w \<noteq> []"
    using split_from_nonempty by (auto simp: split_ws_def)
  from second_loop_total[OF this, of "[]" False]
  obtain sp b where s: "second_loop (split_ws cmd) ([], False) = Inr (sp, b)" "\<forall>t \<in> set sp. t \<noteq> []"
    by auto
  from third_loop_total[OF s(2)] obtain us where "third_loop sp = Inr us" by blast
  then show ?thesis using s(1) by (simp add: tokenize_def)
qed

text \<open>
  C7 (as stated) fails: in \<open>(a "b c\<close> the quote is never closed, and the tokenizer returns
  three tokens, the last one the open region \<open>"b c\<close>.
\<close>

theorem unclosed_quote_counterexample:
  "count_char CHR 0x22 (''(a \"b c'') = 1 \<and>
   tokenize (''(a \"b c'') = Inr [''('', ''a'', ''\"b c'']"
  by code_simp

subsection \<open>Leaving the context manager\<close>

lemma write_ops_lines:
  "map (deparse fstr) ops = map Inr lines \<Longrightarrow>
   write_ops fstr ops w = (None, w @ file_text lines)"
proof (induction ops arbitrary: w lines)
  case Nil
  then show ?case by (simp add: file_text_def)
next
  case (Cons c ops)
  then obtain l ls where l: "lines = l # ls" "deparse fstr c = Inr l"
    "map (deparse fstr) ops = map Inr ls" by (cases lines) auto
  show ?case using Cons.IH[OF l(3)] l by (simp add: file_text_def)
qed

text \<open>
  C10 (as the code has it). Let the commands on the undo stack serialize to \<open>lines\<close>.
  When the block ends normally and \<open>file\<close> and \<open>file + '.yaml'\<close> can be opened, \<open>__exit__\<close>
  writes the lines to \<open>file\<close> and the metadata to the sidecar \<open>file + '.yaml'\<close>, and returns
  True. When the block ends by an exception and \<open>file + '.bak'\<close> and \<open>file + '.bak.yaml'\<close>
  can be opened, it writes the lines to \<open>file + '.bak'\<close> and the metadata to
  \<open>file + '.bak.yaml'\<close> instead (and leaves \<open>self.file\<close> set to \<open>file + '.bak'\<close>), and returns
  False, so that the exception goes on to the caller. When the file of the lines cannot
  be opened, \<open>__exit__\<close> raises OSError and writes nothing.
\<close>

theorem exit_writes:
  assumes "map (deparse fstr) (undo_stack cs) = map Inr lines"
  shows "(openable (ops_file cs) \<and> openable (ops_file cs @ ''.yaml'') \<longrightarrow>
            exit_with fstr yd openable False cs fsys =
              (Inr True, cs,
               fsys(ops_file cs \<mapsto> file_text lines,
                    ops_file cs @ ''.yaml'' \<mapsto> yaml_header @ yd (uuid cs) (label_hash cs)))) \<and>
         (openable (ops_file cs @ ''.bak'') \<and> openable (ops_file cs @ ''.bak.yaml'') \<longrightarrow>
            exit_with fstr yd openable True cs fsys =
              (Inr False, cs\<lparr>ops_file := ops_file cs @ ''.bak''\<rparr>,
               fsys(ops_file cs @ ''.bak'' \<mapsto> file_text lines,
                    ops_file cs @ ''.bak.yaml'' \<mapsto>
                      yaml_header @ yd (uuid cs) (label_hash cs)))) \<and>
         (\<not> openable (ops_file cs) \<longrightarrow>
            exit_with fstr yd openable False cs fsys = (Inl OSError, cs, fsys)) \<and>
         (\<not> openable (ops_file cs @ ''.bak'') \<longrightarrow>
            exit_with fstr yd openable True cs fsys =
              (Inl OSError, cs\<lparr>ops_file := ops_file cs @ ''.bak''\<rparr>, fsys))"
  using write_ops_lines[OF assms, of "[]"]
  by (simp add: exit_with_def write_to_file_def)

lemma deparse_saved_stack:
  "map (deparse example_float_str) (undo_stack saved_stack) = map Inr [rename_text, set_stop_text]"
  by code_simp

theorem exit_writes_witness:
  "exit_with example_float_str example_yaml_dump any_path False saved_stack Map.empty =
     (Inr True, saved_stack,
      [''ops'' \<mapsto> rename_text @ [CHR 0x0A] @ set_stop_text @ [CHR 0x0A],
       ''ops.yaml'' \<mapsto> yaml_header @
          example_yaml_dump ''16fd2706-8baf-433b-82eb-8c7fada847da''
            ''da39a3ee5e6b4b0d3255bfef95601890afd80709'']) \<and>
   exit_with example_float_str example_yaml_dump any_path True saved_stack Map.empty =
     (Inr False, saved_stack\<lparr>ops_file := ''ops.bak''\<rparr>,
      [''ops.bak'' \<mapsto> rename_text @ [CHR 0x0A] @ set_stop_text @ [CHR 0x0A],
       ''ops.bak.yaml'' \<mapsto> yaml_header @
          example_yaml_dump ''16fd2706-8baf-433b-82eb-8c7fada847da''
            ''da39a3ee5e6b4b0d3255bfef95601890afd80709'']) \<and>
   exit_with example_float_str example_yaml_dump outside_ro False
       (saved_stack\<lparr>ops_file := ''ro/ops''\<rparr>) Map.empty =
     (Inl OSError, saved_stack\<lparr>ops_file := ''ro/ops''\<rparr>, Map.empty) \<and>
   exit_with example_float_str example_yaml_dump outside_ro True
       (saved_stack\<lparr>ops_file := ''ro/ops''\<rparr>) Map.empty =
     (Inl OSError, saved_stack\<lparr>ops_file := ''ro/ops.bak''\<rparr>, Map.empty)"
proof -
  have d: "map (deparse example_float_str) (undo_stack (saved_stack\<lparr>ops_file := ''ro/ops''\<rparr>))
             = map Inr [rename_text, set_stop_text]"
    using deparse_saved_stack by simp
  show ?thesis
    using exit_writes [OF deparse_saved_stack, of any_path example_yaml_dump Map.empty]
      exit_writes [OF d, of outside_ro example_yaml_dump Map.empty]
    by (simp add: saved_stack_def any_path_def outside_ro_def file_text_def)
qed

text \<open>
  C10 (as stated) fails: after a normal exit the operations file holds the two serialized
  commands and nothing else; the metadata is in another file, \<open>ops.yaml\<close>.
\<close>

theorem metadata_in_sidecar_counterexample:
  "(case exit_with example_float_str example_yaml_dump any_path False saved_stack Map.empty of
      (res, cs', fsys') \<Rightarrow>
        res = Inr True \<and>
        fsys' ''ops'' = Some
          (''(set-name #:labels labels #:target (interval #:index 0 #:name \"a\") #:new-name \"q\")''
           @ [CHR 0x0A] @
           ''(set-stop #:labels labels #:target (interval #:index 1 #:stop 3) #:new-stop 4)''
           @ [CHR 0x0A]) \<and>
        fsys' ''ops.yaml'' = Some
          (yaml_header @
           ''label_hash: da39a3ee5e6b4b0d3255bfef95601890afd80709'' @ [CHR 0x0A] @
           ''uuid: 16fd2706-8baf-433b-82eb-8c7fada847da'' @ [CHR 0x0A]))"
  by code_simp

subsection \<open>Round trip of generated commands\<close>

lemma is_space_space [simp]: "is_space CHR '' ''"
  by (simp add: is_space_def)

lemma split_from_word: "(\<forall>c \<in> set x. \<not> is_space c) \<Longrightarrow> split_from w (x @ r) = split_from (w @ x) r"
  by (induction x arbitrary: w) auto

lemma split_from_words:
  "\<forall>w \<in> set ws. word w \<Longrightarrow> word v \<Longrightarrow>
   split_from [] (v @ concat (map ((#) CHR '' '') ws)) = v # ws"
proof (induction ws arbitrary: v)
  case Nil
  then show ?case using split_from_word[of v "[]" "[]"] by (simp add: word_def)
next
  case (Cons u ws)
  have "split_from [] (v @ CHR '' '' # u @ concat (map ((#) CHR '' '') ws))
        = split_from v (CHR '' '' # u @ concat (map ((#) CHR '' '') ws))"
    using split_from_word[of v "[]"] Cons.prems by (simp add: word_def)
  also have "\<dots> = v # split_from [] (u @ concat (map ((#) CHR '' '') ws))"
    using Cons.prems by (simp add: word_def)
  also have "\<dots> = v # u # ws" using Cons by simp
  finally show ?case by simp
qed

lemma split_ws_join: "\<forall>w \<in> set ws. word w \<Longrightarrow> split_ws (join ws) = ws"
  by (cases ws) (auto simp: split_ws_def split_from_words)

lemma join_append: "xs \<noteq> [] \<Longrightarrow> join (xs @ ys) = join xs @ concat (map ((#) CHR '' '') ys)"
  by (cases xs) auto

lemma join_concat:
  "\<forall>ws \<in> set wss. ws \<noteq> [] \<Longrightarrow> join (concat wss) = join (map join wss)"
proof (induction wss)
  case Nil
  then show ?case by simp
next
  case (Cons ws wss)
  then obtain w r where ws: "ws = w # r" by (cases ws) auto
  have ih: "join (concat wss) = join (map join wss)" using Cons by simp
  have c: "concat (map ((#) CHR '' '') (concat wss)) = concat (map ((#) CHR '' '') (map join wss))"
    using Cons.prems
  proof (induction wss)
    case Nil
    then show ?case by simp
  next
    case (Cons a wss)
    then obtain x y where "a = x # y" by (cases a) auto
    then show ?case using Cons by simp
  qed
  show ?case using ws c by simp
qed

lemma extend_last_snoc: "extend_last (sp @ [cur]) w = Inr (sp @ [cur @ CHR '' '' # w])"
  by (simp add: extend_last_def)

lemma second_loop_middle:
  "\<forall>m \<in> set ms. quotes m = 0 \<Longrightarrow> odd (quotes wn) \<Longrightarrow>
   second_loop (ms @ wn # rest) (sp @ [cur], True)
     = second_loop rest (sp @ [cur @ concat (map ((#) CHR '' '') (ms @ [wn]))], False)"
proof (induction ms arbitrary: cur)
  case Nil
  then show ?case by (simp add: quotes_def Let_def extend_last_snoc odd_iff_mod_2_eq_one)
next
  case (Cons m ms)
  then show ?case by (simp add: quotes_def Let_def extend_last_snoc)
qed

lemma closed_words_many:
  "closed_words (w # bs @ [l]) \<longleftrightarrow>
     word w \<and> odd (quotes w) \<and> word l \<and> odd (quotes l) \<and> (\<forall>m \<in> set bs. word m \<and> quotes m = 0)"
  by (cases bs) auto

lemma second_loop_closed:
  assumes "closed_words ws"
  shows "second_loop (ws @ rest) (sp, False) = second_loop rest (sp @ [join ws], False)"
proof (cases ws)
  case Nil
  then show ?thesis using assms by simp
next
  case (Cons w r)
  show ?thesis
  proof (cases r rule: rev_cases)
    case Nil
    then show ?thesis using assms Cons
      by (auto simp: quotes_def Let_def even_iff_mod_2_eq_zero)
  next
    case (snoc bs l)
    from assms Cons snoc have a: "odd (quotes w)" "odd (quotes l)" "\<forall>m \<in> set bs. quotes m = 0"
      by (auto simp: closed_words_many)
    have "second_loop (ws @ rest) (sp, False) = second_loop (bs @ l # rest) (sp @ [w], True)"
      using Cons snoc a(1) by (simp add: quotes_def Let_def odd_iff_mod_2_eq_one)
    also have "\<dots> = second_loop rest (sp @ [w @ concat (map ((#) CHR '' '') (bs @ [l]))], False)"
      using second_loop_middle[OF a(3) a(2)] by simp
    also have "\<dots> = second_loop rest (sp @ [join ws], False)" using Cons snoc by simp
    finally show ?thesis .
  qed
qed

lemma second_loop_chunks:
  "\<forall>ws \<in> set wss. closed_words ws \<Longrightarrow>
   second_loop (concat wss) (sp, False) = Inr (sp @ map join wss, False)"
proof (induction wss arbitrary: sp)
  case Nil
  then show ?case by simp
next
  case (Cons ws wss)
  then show ?case using second_loop_closed[of ws "concat wss" sp] by simp
qed

lemma closed_words_word: "closed_words ws \<Longrightarrow> w \<in> set ws \<Longrightarrow> word w"
proof (cases ws)
  case Nil
  assume "closed_words ws" then show ?thesis using Nil by simp
next
  case (Cons a r)
  assume cw: "closed_words ws" and w: "w \<in> set ws"
  show ?thesis
  proof (cases r rule: rev_cases)
    case Nil
    then show ?thesis using cw w Cons by simp
  next
    case (snoc bs l)
    then show ?thesis using cw w Cons by (auto simp: closed_words_many)
  qed
qed

lemma closed_words_nonempty: "closed_words ws \<Longrightarrow> ws \<noteq> []"
  by (cases ws) auto

lemma second_pass_chunks:
  assumes "\<forall>c \<in> set cs. chunk c"
  shows "second_loop (split_ws (join cs)) ([], False) = Inr (cs, False)"
proof -
  from assms have "\<forall>c \<in> set cs. \<exists>ws. closed_words ws \<and> join ws = c" by (simp add: chunk_def)
  then obtain f where f: "\<forall>c \<in> set cs. closed_words (f c) \<and> join (f c) = c" by metis
  define wss where "wss = map f cs"
  have cw: "\<forall>ws \<in> set wss. closed_words ws" using f by (auto simp: wss_def)
  have j: "map join wss = cs" using f by (auto simp: wss_def intro: map_idI)
  have ne: "\<forall>ws \<in> set wss. ws \<noteq> []" using cw closed_words_nonempty by blast
  have wd: "\<forall>w \<in> set (concat wss). word w" using cw closed_words_word by auto
  have "join cs = join (concat wss)" using join_concat[OF ne] j by simp
  then have "split_ws (join cs) = concat wss" using split_ws_join[OF wd] by simp
  then show ?thesis using second_loop_chunks[OF cw, of "[]"] j by simp
qed

lemma third_loop_append:
  "third_loop xs = Inr a \<Longrightarrow> third_loop ys = Inr b \<Longrightarrow> third_loop (xs @ ys) = Inr (a @ b)"
proof (induction xs arbitrary: a)
  case Nil
  then show ?case by simp
next
  case (Cons t xs)
  from Cons.prems(1) have ne: "t \<noteq> []" by (auto split: if_splits)
  from Cons.prems(1) ne obtain a' where a': "third_loop xs = Inr a'"
    by (cases "third_loop xs") auto
  from Cons.IH[OF a' Cons.prems(2)] have "third_loop (xs @ ys) = Inr (a' @ b)" .
  then show ?case using Cons.prems(1) ne a' by (auto simp: Let_def split: if_splits)
qed

lemma third_loop_plain: "\<forall>t \<in> set ts. tok_plain t \<Longrightarrow> third_loop ts = Inr ts"
  by (induction ts) (auto simp: tok_plain_def)

lemma third_loop_open: "t \<noteq> [] \<Longrightarrow> third_loop [CHR ''('' # t] = Inr [''('', t]"
  by simp

lemma count_char_replicate: "c \<notin> set t \<Longrightarrow> count_char c (t @ replicate k c) = k"
  by (induction t) (auto simp: count_char_def)

lemma third_loop_final:
  assumes "tok_final t"
  shows "third_loop [t @ replicate k CHR '')''] = Inr (t # replicate k '')'')"
proof (cases k)
  case 0
  have "t \<noteq> []" "CHR '')'' \<notin> set t" using assms by (auto simp: tok_final_def)
  then have "last t \<noteq> CHR '')''" using last_in_set[of t] by metis
  then show ?thesis using assms 0
    by (auto simp: tok_final_def)
next
  case (Suc j)
  have "hd (t @ replicate k CHR '')'') \<noteq> CHR ''(''" using assms by (simp add: tok_final_def)
  moreover have "last (t @ replicate k CHR '')'') = CHR '')''" using Suc by simp
  moreover have "count_char CHR '')'' (t @ replicate k CHR '')'') = k"
    using assms count_char_replicate by (simp add: tok_final_def)
  ultimately show ?thesis using assms by (simp add: Let_def tok_final_def)
qed

lemma attach_snoc:
  "ts \<noteq> [] \<Longrightarrow> attach [] (ts @ [t]) post = ts @ [t @ post]"
proof (induction ts)
  case Nil
  then show ?case by simp
next
  case (Cons a ts)
  then show ?case by (cases ts) auto
qed

lemma third_loop_attach:
  assumes "\<forall>t \<in> set ts. tok_plain t" "tok_final l"
  shows "third_loop (attach [] (ts @ [l]) (replicate k CHR '')'')) = Inr (ts @ l # replicate k '')'')"
proof (cases "ts = []")
  case True
  then show ?thesis using third_loop_final[OF assms(2)] by simp
next
  case False
  have "third_loop (ts @ [l @ replicate k CHR '')'']) = Inr (ts @ (l # replicate k '')''))"
    using third_loop_append[OF third_loop_plain[OF assms(1)] third_loop_final[OF assms(2)]] .
  then show ?thesis using attach_snoc[OF False] by simp
qed

lemma third_loop_attach_open:
  assumes "a \<noteq> []" "\<forall>t \<in> set ts. tok_plain t" "tok_final l"
  shows "third_loop (attach ''('' (a # ts @ [l]) (replicate k CHR '')''))
           = Inr (''('' # a # ts @ l # replicate k '')'')"
proof -
  have "attach ''('' (a # ts @ [l]) (replicate k CHR '')'')
          = (CHR ''('' # a) # attach [] (ts @ [l]) (replicate k CHR '')'')"
    by (cases ts) auto
  moreover have "third_loop ([CHR ''('' # a] @ attach [] (ts @ [l]) (replicate k CHR '')''))
     = Inr ([''('', a] @ (ts @ l # replicate k '')''))"
    using third_loop_append[OF third_loop_open[OF assms(1)] third_loop_attach[OF assms(2,3)]] .
  ultimately show ?thesis by simp
qed

lemma detok_plain:
  "cmd \<noteq> [] \<Longrightarrow> last cmd \<noteq> CHR ''('' \<Longrightarrow>
   \<forall>t \<in> set ts. t \<noteq> [] \<and> t \<noteq> '')'' \<and> last t \<noteq> CHR ''('' \<Longrightarrow>
   detok_loop cmd (ts @ rest) = detok_loop (cmd @ spaced ts) rest"
proof (induction ts arbitrary: cmd)
  case Nil
  then show ?case by (simp add: spaced_def)
next
  case (Cons t ts)
  have "detok_loop cmd ((t # ts) @ rest) = detok_loop (cmd @ CHR '' '' # t) (ts @ rest)"
    using Cons.prems by simp
  also have "\<dots> = detok_loop ((cmd @ CHR '' '' # t) @ spaced ts) rest"
    using Cons.prems by (intro Cons.IH) auto
  finally show ?case by (simp add: spaced_def)
qed

lemma detok_open:
  "cmd \<noteq> [] \<Longrightarrow> last cmd \<noteq> CHR ''('' \<Longrightarrow> t \<noteq> '')'' \<Longrightarrow>
   detok_loop cmd (''('' # t # rest) = detok_loop (cmd @ '' ('' @ t) rest"
  by simp

lemma detok_close: "detok_loop cmd ('')'' # rest) = detok_loop (cmd @ '')'') rest"
  by simp

lemma tok_plain_detok: "tok_plain t \<Longrightarrow> t \<noteq> [] \<and> t \<noteq> '')'' \<and> last t \<noteq> CHR ''(''"
  by (auto simp: tok_plain_def)

lemma tok_final_detok: "tok_final t \<Longrightarrow> t \<noteq> [] \<and> t \<noteq> '')'' \<and> last t \<noteq> CHR ''(''"
  by (auto simp: tok_final_def)

lemma detokenize_shape:
  assumes a: "tok_final a" and as: "\<forall>t \<in> set as. tok_final t"
    and b: "tok_final b" and bs: "\<forall>t \<in> set bs. t \<noteq> [] \<and> t \<noteq> '')'' \<and> last t \<noteq> CHR ''(''"
    and cs: "\<forall>t \<in> set cs. t \<noteq> [] \<and> t \<noteq> '')'' \<and> last t \<noteq> CHR ''(''"
  shows "detokenize (''('' # a # as @ ''('' # b # bs @ '')'' # cs @ ['')''])
           = Inr (''('' @ a @ spaced as @ '' ('' @ b @ spaced bs @ '')'' @ spaced cs @ '')'')"
proof -
  let ?c1 = "''('' @ a"
  have a': "a \<noteq> []" "a \<noteq> '')''" "last a \<noteq> CHR ''(''" using tok_final_detok[OF a] by auto
  have as': "\<forall>t \<in> set as. t \<noteq> [] \<and> t \<noteq> '')'' \<and> last t \<noteq> CHR ''(''"
    using as tok_final_detok by blast
  have b': "b \<noteq> []" "b \<noteq> '')''" "last b \<noteq> CHR ''(''" using tok_final_detok[OF b] by auto
  have 1: "detokenize (''('' # a # as @ ''('' # b # bs @ '')'' # cs @ ['')''])
           = detok_loop ?c1 (as @ ''('' # b # bs @ '')'' # cs @ ['')''])"
    using a' by simp
  have c1: "?c1 \<noteq> []" "last ?c1 \<noteq> CHR ''(''" using a' by auto
  have 2: "detok_loop ?c1 (as @ ''('' # b # bs @ '')'' # cs @ ['')''])
           = detok_loop (?c1 @ spaced as) (''('' # b # bs @ '')'' # cs @ ['')''])"
    using detok_plain[OF c1 as'] .
  let ?c2 = "?c1 @ spaced as"
  have c2: "?c2 \<noteq> []" "last ?c2 \<noteq> CHR ''(''"
  proof -
    show "?c2 \<noteq> []" by simp
    show "last ?c2 \<noteq> CHR ''(''"
    proof (cases as rule: rev_cases)
      case Nil
      then show ?thesis using a' by (simp add: spaced_def)
    next
      case (snoc ys y)
      then have "y \<noteq> []" "last y \<noteq> CHR ''(''" using as' by auto
      then show ?thesis using snoc by (simp add: spaced_def)
    qed
  qed
  have 3: "detok_loop ?c2 (''('' # b # bs @ '')'' # cs @ ['')''])
           = detok_loop (?c2 @ '' ('' @ b) (bs @ '')'' # cs @ ['')''])"
    using detok_open[OF c2 b'(2)] by simp
  let ?c3 = "?c2 @ '' ('' @ b"
  have c3: "?c3 \<noteq> []" "last ?c3 \<noteq> CHR ''(''" using b' by auto
  have 4: "detok_loop ?c3 (bs @ '')'' # cs @ ['')''])
           = detok_loop (?c3 @ spaced bs) ('')'' # cs @ ['')''])"
    using detok_plain[OF c3 bs] .
  let ?c4 = "?c3 @ spaced bs @ '')''"
  have 5: "detok_loop (?c3 @ spaced bs) ('')'' # cs @ ['')'']) = detok_loop ?c4 (cs @ ['')''])"
    by simp
  have c4: "?c4 \<noteq> []" "last ?c4 \<noteq> CHR ''(''" by auto
  have 6: "detok_loop ?c4 (cs @ ['')'']) = detok_loop (?c4 @ spaced cs) ['')'']"
    using detok_plain[OF c4 cs] .
  have 7: "detok_loop (?c4 @ spaced cs) ['')''] = Inr (?c4 @ spaced cs @ '')'')" by simp
  show ?thesis using 1 2 3 4 5 6 7 by simp
qed

lemma quotes_append: "quotes (a @ b) = quotes a + quotes b"
  by (simp add: quotes_def count_char_def)

lemma quotes_none: "CHR 0x22 \<notin> set a \<Longrightarrow> quotes a = 0"
  by (induction a) (auto simp: quotes_def count_char_def)

lemma quotes_clean: "\<forall>c \<in> set p. \<not> is_space c \<and> c \<noteq> CHR 0x22 \<Longrightarrow> quotes p = 0"
  by (rule quotes_none) auto

lemma quotes_quote [simp]: "quotes [CHR 0x22] = 1"
  by (simp add: quotes_def count_char_def)

lemma word_append: "word a \<Longrightarrow> \<forall>c \<in> set b. \<not> is_space c \<Longrightarrow> word (a @ b)"
  by (auto simp: word_def)

lemma word_prepend: "word a \<Longrightarrow> \<forall>c \<in> set b. \<not> is_space c \<Longrightarrow> word (b @ a)"
  by (auto simp: word_def)

lemma chunk_pre:
  assumes "chunk t" "\<forall>c \<in> set p. \<not> is_space c \<and> c \<noteq> CHR 0x22"
  shows "chunk (p @ t)"
proof -
  from assms(1) obtain ws where ws: "closed_words ws" "join ws = t" by (auto simp: chunk_def)
  then obtain w r where wr: "ws = w # r" by (cases ws) auto
  have q: "quotes (p @ w) = quotes w" using assms(2) by (simp add: quotes_append quotes_clean)
  have "closed_words ((p @ w) # r)"
  proof (cases r rule: rev_cases)
    case Nil
    then show ?thesis using ws(1) wr q assms(2) by (simp add: word_prepend)
  next
    case (snoc bs l)
    then show ?thesis using ws(1) wr q assms(2) by (simp add: closed_words_many word_prepend)
  qed
  moreover have "join ((p @ w) # r) = p @ t" using ws(2) wr by simp
  ultimately show ?thesis by (auto simp: chunk_def)
qed

lemma chunk_post:
  assumes "chunk t" "\<forall>c \<in> set p. \<not> is_space c \<and> c \<noteq> CHR 0x22"
  shows "chunk (t @ p)"
proof -
  from assms(1) obtain ws where ws: "closed_words ws" "join ws = t" by (auto simp: chunk_def)
  then obtain w r where wr: "ws = w # r" by (cases ws) auto
  show ?thesis
  proof (cases r rule: rev_cases)
    case Nil
    have "quotes (w @ p) = quotes w" using assms(2) by (simp add: quotes_append quotes_clean)
    then have "closed_words [w @ p]" using ws(1) wr Nil assms(2) by (simp add: word_append)
    moreover have "join [w @ p] = t @ p" using ws(2) wr Nil by simp
    ultimately show ?thesis unfolding chunk_def by blast
  next
    case (snoc bs l)
    have "quotes (l @ p) = quotes l" using assms(2) by (simp add: quotes_append quotes_clean)
    then have "closed_words (w # bs @ [l @ p])"
      using ws(1) wr snoc assms(2) by (simp add: closed_words_many word_append)
    moreover have "join (w # bs @ [l @ p]) = t @ p" using ws(2) wr snoc by simp
    ultimately show ?thesis unfolding chunk_def by blast
  qed
qed

lemma chunk_word: "word t \<Longrightarrow> CHR 0x22 \<notin> set t \<Longrightarrow> chunk t"
  unfolding chunk_def by (rule exI[of _ "[t]"]) (simp add: quotes_none)

lemma single_spaced_tl: "single_spaced (c # r) \<Longrightarrow> single_spaced r"
  by (cases r) auto

lemma string_tail:
  assumes "CHR 0x22 \<notin> set s" "\<forall>c \<in> set s. is_space c \<longrightarrow> c = CHR '' ''" "single_spaced s"
    "\<forall>c \<in> set v. \<not> is_space c \<and> c \<noteq> CHR 0x22" "v = [] \<longrightarrow> s = [] \<or> hd s \<noteq> CHR '' ''"
  shows "\<exists>ms l. (\<forall>m \<in> set ms. word m \<and> quotes m = 0) \<and> word l \<and> odd (quotes l) \<and>
           join (ms @ [l]) = v @ s @ [CHR 0x22]"
  using assms
proof (induction s arbitrary: v)
  case Nil
  have "word (v @ [CHR 0x22])" using Nil.prems(4) by (auto simp: word_def is_space_def)
  moreover have "quotes (v @ [CHR 0x22]) = 1"
    using Nil.prems(4) by (simp add: quotes_append quotes_clean)
  ultimately show ?case by (intro exI[of _ "[]"] exI[of _ "v @ [CHR 0x22]"]) simp
next
  case (Cons c r)
  have r: "CHR 0x22 \<notin> set r" "\<forall>c \<in> set r. is_space c \<longrightarrow> c = CHR '' ''" "single_spaced r"
    using Cons.prems single_spaced_tl by auto
  show ?case
  proof (cases "c = CHR '' ''")
    case True
    then have vne: "v \<noteq> []" using Cons.prems(5) by auto
    have h: "r = [] \<or> hd r \<noteq> CHR '' ''" using Cons.prems(3) True by (cases r) auto
    from Cons.IH[OF r, of "[]"] h obtain ms l where
      ml: "\<forall>m \<in> set ms. word m \<and> quotes m = 0" "word l" "odd (quotes l)"
          "join (ms @ [l]) = r @ [CHR 0x22]" by auto
    have wv: "word v \<and> quotes v = 0" using vne Cons.prems(4) by (simp add: word_def quotes_clean)
    have "join ((v # ms) @ [l]) = v @ CHR '' '' # join (ms @ [l])"
      by (cases ms) auto
    then have "join ((v # ms) @ [l]) = v @ (c # r) @ [CHR 0x22]" using ml(4) True by simp
    moreover have "\<forall>m \<in> set (v # ms). word m \<and> quotes m = 0" using wv ml(1) by auto
    ultimately show ?thesis using ml(2,3) by blast
  next
    case False
    then have ns: "\<not> is_space c" "c \<noteq> CHR 0x22" using Cons.prems(1,2) by auto
    have "\<forall>x \<in> set (v @ [c]). \<not> is_space x \<and> x \<noteq> CHR 0x22" using Cons.prems(4) ns by auto
    from Cons.IH[OF r this] obtain ms l where
      ml: "\<forall>m \<in> set ms. word m \<and> quotes m = 0" "word l" "odd (quotes l)"
          "join (ms @ [l]) = (v @ [c]) @ r @ [CHR 0x22]" by auto
    then show ?thesis by (intro exI[of _ ms] exI[of _ l]) simp
  qed
qed

lemma single_spaced_append: "single_spaced (a @ b) \<Longrightarrow> single_spaced b"
proof (induction a)
  case Nil
  then show ?case by simp
next
  case (Cons c a)
  then show ?case using single_spaced_tl[of c "a @ b"] by simp
qed

lemma single_spaced_mid: "single_spaced (a @ CHR '' '' # b) \<Longrightarrow> b = [] \<or> hd b \<noteq> CHR '' ''"
  using single_spaced_append[of a "CHR '' '' # b"] by (cases b) auto

lemma chunk_string:
  assumes "str_ok s"
  shows "chunk (CHR 0x22 # s @ [CHR 0x22])"
proof (cases "CHR '' '' \<in> set s")
  case False
  have "\<forall>c \<in> set s. \<not> is_space c" using assms False by (auto simp: str_ok_def)
  then have "word (CHR 0x22 # s @ [CHR 0x22])" by (auto simp: word_def is_space_def)
  moreover have "quotes ([CHR 0x22] @ s @ [CHR 0x22]) = 2"
    using assms by (simp only: quotes_append quotes_quote) (simp add: quotes_none str_ok_def)
  then have "quotes (CHR 0x22 # s @ [CHR 0x22]) = 2" by simp
  moreover note this
  ultimately have "closed_words [CHR 0x22 # s @ [CHR 0x22]]" by simp
  then show ?thesis unfolding chunk_def by (intro exI[of _ "[CHR 0x22 # s @ [CHR 0x22]]"]) simp
next
  case True
  then obtain a b where ab: "s = a @ CHR '' '' # b" "CHR '' '' \<notin> set a"
    using split_list_first[of "CHR '' ''" s] by blast
  have s: "CHR 0x22 \<notin> set s" "\<forall>c \<in> set s. is_space c \<longrightarrow> c = CHR '' ''" "single_spaced s"
    using assms by (auto simp: str_ok_def)
  have sub: "set b \<subseteq> set s" "set a \<subseteq> set s" unfolding ab(1) by auto
  have "single_spaced (CHR '' '' # b)" using single_spaced_append[of a "CHR '' '' # b"] s(3) ab(1) by simp
  then have sb: "single_spaced b" by (rule single_spaced_tl)
  have b: "CHR 0x22 \<notin> set b" "\<forall>c \<in> set b. is_space c \<longrightarrow> c = CHR '' ''" "single_spaced b"
    using s(1,2) sub(1) sb by blast+
  have hb: "b = [] \<or> hd b \<noteq> CHR '' ''" using single_spaced_mid s(3) ab(1) by blast
  from string_tail[OF b, of "[]"] hb obtain ms l where
    ml: "\<forall>m \<in> set ms. word m \<and> quotes m = 0" "word l" "odd (quotes l)"
        "join (ms @ [l]) = b @ [CHR 0x22]" by auto
  have a: "\<forall>c \<in> set a. \<not> is_space c" "CHR 0x22 \<notin> set a"
    using s(1,2) sub(2) ab(2) by blast+
  have nq: "\<not> is_space CHR 0x22" by (simp add: is_space_def)
  have w: "word (CHR 0x22 # a)" using a(1) nq by (simp add: word_def)
  have "quotes ([CHR 0x22] @ a) = 1"
    using a by (simp only: quotes_append quotes_quote) (simp add: quotes_none)
  then have q: "quotes (CHR 0x22 # a) = 1" by simp
  have cw: "closed_words ((CHR 0x22 # a) # ms @ [l])"
    using w q ml by (simp add: closed_words_many)
  have "join ((CHR 0x22 # a) # ms @ [l]) = (CHR 0x22 # a) @ CHR '' '' # join (ms @ [l])"
    by (cases ms) auto
  then have "join ((CHR 0x22 # a) # ms @ [l]) = CHR 0x22 # s @ [CHR 0x22]"
    unfolding ab(1) ml(4) by simp
  then show ?thesis using cw unfolding chunk_def by blast
qed

lemma spaced_append: "spaced (xs @ ys) = spaced xs @ spaced ys"
  by (simp add: spaced_def)

lemma spaced_Cons: "spaced (x # xs) = CHR '' '' # x @ spaced xs"
  by (simp add: spaced_def)

lemma join_spaced: "join (x # xs) = x @ spaced xs"
  by (simp add: spaced_def)

lemma attach_nil: "attach [] ts [] = ts"
proof (induction ts)
  case Nil
  then show ?case by simp
next
  case (Cons t ts)
  then show ?case by (cases ts) auto
qed

lemma spaced_attach: "ts \<noteq> [] \<Longrightarrow> spaced (attach [] ts post) = spaced ts @ post"
proof (cases ts rule: rev_cases)
  case Nil
  assume "ts \<noteq> []" then show ?thesis using Nil by simp
next
  case (snoc ys y)
  show ?thesis
  proof (cases "ys = []")
    case True
    then show ?thesis using snoc by (simp add: spaced_def)
  next
    case False
    then show ?thesis using snoc attach_snoc[OF False, of y post] by (simp add: spaced_def)
  qed
qed

lemma attach_open: "ts \<noteq> [] \<Longrightarrow> attach pre (t # ts) post = (pre @ t) # attach [] ts post"
  by (cases ts) auto

lemma chunk_attach:
  assumes "\<forall>t \<in> set ts. chunk t" "\<forall>c \<in> set pre. \<not> is_space c \<and> c \<noteq> CHR 0x22"
    "\<forall>c \<in> set post. \<not> is_space c \<and> c \<noteq> CHR 0x22"
  shows "\<forall>c \<in> set (attach pre ts post). chunk c"
  using assms
proof (induction pre ts post rule: attach.induct)
  case (1 pre post)
  then show ?case by simp
next
  case (2 pre t post)
  then show ?case using chunk_pre[OF chunk_post[of t post], of pre] by simp
next
  case (3 pre t u r post)
  have "chunk (pre @ t)" using 3 chunk_pre[of t pre] by simp
  moreover have "\<forall>c \<in> set (attach [] (u # r) post). chunk c" using 3 by simp
  ultimately show ?case by simp
qed

lemma paren_clean:
  "\<forall>c \<in> set (replicate k CHR '')''). \<not> is_space c \<and> c \<noteq> CHR 0x22"
  "\<forall>c \<in> set ''(''. \<not> is_space c \<and> c \<noteq> CHR 0x22"
  by (auto simp: is_space_def)

lemma toks_ok_split:
  assumes "toks_ok ts" "ts \<noteq> []"
  obtains ms l where "ts = ms @ [l]" "\<forall>t \<in> set ms. tok_plain t" "tok_final l" "\<forall>t \<in> set ts. chunk t"
  using assms by (cases ts rule: rev_cases) (auto simp: toks_ok_def)

lemma toks_ok_detok:
  assumes "toks_ok ts"
  shows "\<forall>t \<in> set ts. t \<noteq> [] \<and> t \<noteq> '')'' \<and> last t \<noteq> CHR ''(''"
proof (cases "ts = []")
  case True
  then show ?thesis by simp
next
  case False
  from toks_ok_split[OF assms False] obtain ms l where
    s: "ts = ms @ [l]" "\<forall>t \<in> set ms. tok_plain t" "tok_final l" by metis
  then show ?thesis using tok_plain_detok tok_final_detok by auto
qed

lemma tokenize_shape:
  assumes a: "a \<noteq> []" "chunk a" "last a \<noteq> CHR ''(''" "a \<noteq> '')''"
    and as: "toks_ok as" "as \<noteq> []"
    and b: "b \<noteq> []" "chunk b" "last b \<noteq> CHR ''(''" "b \<noteq> '')''"
    and bs: "toks_ok bs" "bs \<noteq> []"
    and cs: "toks_ok cs"
  shows "ebind (detokenize (''('' # a # as @ ''('' # b # bs @ '')'' # cs @ ['')''])) tokenize
           = Inr (''('' # a # as @ ''('' # b # bs @ '')'' # cs @ ['')''])"
proof -
  define k where "k = (if cs = [] then 2 else 1 :: nat)"
  define chunks where "chunks = attach ''('' (a # as) [] @ attach ''('' (b # bs) (replicate k CHR '')'')
      @ attach [] cs '')''"
  from toks_ok_split[OF as] obtain ams al where
    as': "as = ams @ [al]" "\<forall>t \<in> set ams. tok_plain t" "tok_final al" "\<forall>t \<in> set as. chunk t" by metis
  from toks_ok_split[OF bs] obtain bms bl where
    bs': "bs = bms @ [bl]" "\<forall>t \<in> set bms. tok_plain t" "tok_final bl" "\<forall>t \<in> set bs. chunk t" by metis
  \<comment> \<open>detokenize\<close>
  have det: "detok_loop (''('' @ a) (as @ ''('' # b # bs @ '')'' # cs @ ['')''])
        = Inr (''('' @ a @ spaced as @ '' ('' @ b @ spaced bs @ '')'' @ spaced cs @ '')'')"
  proof -
    let ?c1 = "''('' @ a"
    have c1: "?c1 \<noteq> []" "last ?c1 \<noteq> CHR ''(''" using a by auto
    have 2: "detok_loop ?c1 (as @ ''('' # b # bs @ '')'' # cs @ ['')''])
             = detok_loop (?c1 @ spaced as) (''('' # b # bs @ '')'' # cs @ ['')''])"
      using detok_plain[OF c1 toks_ok_detok[OF as(1)]] .
    let ?c2 = "?c1 @ spaced as"
    have "last (spaced as) \<noteq> CHR ''(''" "spaced as \<noteq> []"
      using as' tok_final_detok[OF as'(3)] by (auto simp: spaced_def)
    then have c2: "?c2 \<noteq> []" "last ?c2 \<noteq> CHR ''(''" by auto
    have 3: "detok_loop ?c2 (''('' # b # bs @ '')'' # cs @ ['')''])
             = detok_loop (?c2 @ '' ('' @ b) (bs @ '')'' # cs @ ['')''])"
      using detok_open[OF c2 b(4)] by simp
    let ?c3 = "?c2 @ '' ('' @ b"
    have c3: "?c3 \<noteq> []" "last ?c3 \<noteq> CHR ''(''" using b by auto
    have 4: "detok_loop ?c3 (bs @ '')'' # cs @ ['')''])
             = detok_loop (?c3 @ spaced bs) ('')'' # cs @ ['')''])"
      using detok_plain[OF c3 toks_ok_detok[OF bs(1)]] .
    let ?c4 = "?c3 @ spaced bs @ '')''"
    have 5: "detok_loop (?c3 @ spaced bs) ('')'' # cs @ ['')'']) = detok_loop ?c4 (cs @ ['')''])"
      by simp
    have c4: "?c4 \<noteq> []" "last ?c4 \<noteq> CHR ''(''" by auto
    have 6: "detok_loop ?c4 (cs @ ['')'']) = detok_loop (?c4 @ spaced cs) ['')'']"
      using detok_plain[OF c4 toks_ok_detok[OF cs]] .
    have 7: "detok_loop (?c4 @ spaced cs) ['')''] = Inr (?c4 @ spaced cs @ '')'')" by simp
    show ?thesis using 2 3 4 5 6 7 by simp
  qed
  \<comment> \<open>the command is the chunks joined\<close>
  have j: "''('' @ a @ spaced as @ '' ('' @ b @ spaced bs @ '')'' @ spaced cs @ '')'' = join chunks"
  proof -
    have 1: "attach ''('' (a # as) [] = (''('' @ a) # as"
      using attach_open[OF as(2), of "''(''" a "[]"] attach_nil by simp
    have 2: "attach ''('' (b # bs) (replicate k CHR '')'')
              = (''('' @ b) # attach [] bs (replicate k CHR '')'')"
      using attach_open[OF bs(2)] by simp
    have 3: "spaced (attach [] bs (replicate k CHR '')'')) = spaced bs @ replicate k CHR '')''"
      using spaced_attach[OF bs(2)] .
    have 4: "replicate k CHR '')'' @ spaced (attach [] cs '')'') = '')'' @ spaced cs @ '')''"
    proof (cases "cs = []")
      case True
      then show ?thesis by (simp add: k_def spaced_def numeral_2_eq_2)
    next
      case False
      then show ?thesis using spaced_attach[OF False, of "'')''"] by (simp add: k_def)
    qed
    have "join chunks = ''('' @ a @ spaced as @ spaced [''('' @ b]
             @ spaced (attach [] bs (replicate k CHR '')'')) @ spaced (attach [] cs '')'')"
      unfolding chunks_def 1 2 by (simp add: spaced_append spaced_Cons spaced_def)
    also have "\<dots> = ''('' @ a @ spaced as @ '' ('' @ b @ spaced bs
             @ (replicate k CHR '')'' @ spaced (attach [] cs '')''))"
      unfolding 3 by (simp add: spaced_def)
    finally show ?thesis unfolding 4 by simp
  qed
  \<comment> \<open>first loop\<close>
  have ch: "\<forall>c \<in> set chunks. chunk c"
  proof -
    have "\<forall>c \<in> set (attach ''('' (a # as) []). chunk c"
      using chunk_attach[of "a # as" "''(''" "[]"] a(2) as'(4) paren_clean(2) by simp
    moreover have "\<forall>c \<in> set (attach ''('' (b # bs) (replicate k CHR '')'')). chunk c"
      using chunk_attach[of "b # bs" "''(''" "replicate k CHR '')''"] b(2) bs'(4) paren_clean by simp
    moreover have "\<forall>c \<in> set (attach [] cs '')''). chunk c"
      using chunk_attach[of cs "[]" "'')''"] cs paren_clean(1)[of 1] by (simp add: toks_ok_def)
    ultimately show ?thesis by (auto simp: chunks_def)
  qed
  have sl: "second_loop (split_ws (join chunks)) ([], False) = Inr (chunks, False)"
    using second_pass_chunks[OF ch] .
  \<comment> \<open>second loop\<close>
  have t1: "third_loop (attach ''('' (a # as) []) = Inr (''('' # a # as)"
    using third_loop_attach_open[OF a(1) as'(2,3), of 0] as'(1) by simp
  have t2: "third_loop (attach ''('' (b # bs) (replicate k CHR '')''))
              = Inr (''('' # b # bs @ replicate k '')'')"
    using third_loop_attach_open[OF b(1) bs'(2,3), of k] bs'(1) by simp
  have t3: "third_loop (attach [] cs '')'') = Inr (if cs = [] then [] else cs @ ['')''])"
  proof (cases "cs = []")
    case True
    then show ?thesis by simp
  next
    case False
    from toks_ok_split[OF cs False] obtain cms cl where
      cs': "cs = cms @ [cl]" "\<forall>t \<in> set cms. tok_plain t" "tok_final cl" by metis
    show ?thesis using third_loop_attach[OF cs'(2,3), of 1] cs'(1) False by simp
  qed
  have "third_loop chunks = Inr ((''('' # a # as) @ (''('' # b # bs @ replicate k '')'')
            @ (if cs = [] then [] else cs @ ['')'']))"
    unfolding chunks_def using third_loop_append[OF t1 third_loop_append[OF t2 t3]] .
  moreover have "(''('' # a # as) @ (''('' # b # bs @ replicate k '')'')
            @ (if cs = [] then [] else cs @ ['')''])
          = ''('' # a # as @ ''('' # b # bs @ '')'' # cs @ ['')'']"
    by (simp add: k_def numeral_2_eq_2)
  ultimately have tl: "third_loop chunks = Inr (''('' # a # as @ ''('' # b # bs @ '')'' # cs @ ['')''])"
    by simp
  have "tokenize (join chunks) = Inr (''('' # a # as @ ''('' # b # bs @ '')'' # cs @ ['')''])"
    using sl tl by (simp add: tokenize_def)
  moreover have "detokenize (''('' # a # as @ ''('' # b # bs @ '')'' # cs @ ['')'']) = Inr (join chunks)"
    using det j a(1) a(4) by simp
  ultimately show ?thesis by simp
qed

lemma digit_char_digit: "d < 10 \<Longrightarrow> is_digit (digit_char d) \<and> digit_val (digit_char d) = d"
  by (simp add: is_digit_def digit_val_def digit_char_def)

lemma digit_not_space: "is_digit c \<Longrightarrow> \<not> is_space c"
  by (auto simp: is_digit_def is_space_def)

lemma digits_of_digits: "\<forall>c \<in> set (digits_of n). is_digit c"
proof (induction n rule: digits_of.induct)
  case (1 n)
  show ?case
  proof (cases "n < 10")
    case True
    then show ?thesis using digit_char_digit by (subst digits_of.simps) simp
  next
    case False
    have "n mod 10 < 10" by simp
    then show ?thesis using False 1 digit_char_digit[of "n mod 10"]
      by (subst digits_of.simps) auto
  qed
qed

lemma digits_of_nonempty: "digits_of n \<noteq> []"
  by (subst digits_of.simps) simp

lemma digits_from_fold:
  "\<forall>c \<in> set ds. is_digit c \<Longrightarrow>
   digits_from n ds = Some (foldl (\<lambda>a c. 10 * a + digit_val c) n ds)"
  by (induction n ds rule: digits_from.induct) auto

lemma digits_of_fold: "foldl (\<lambda>a c. 10 * a + digit_val c) 0 (digits_of n) = n"
proof (induction n rule: digits_of.induct)
  case (1 n)
  show ?case
  proof (cases "n < 10")
    case True
    then show ?thesis using digit_char_digit by (subst digits_of.simps) simp
  next
    case False
    have "n mod 10 < 10" by simp
    then show ?thesis using False 1 digit_char_digit[of "n mod 10"]
      by (subst digits_of.simps) simp
  qed
qed

lemma digits_val_digits_of: "digits_val (digits_of n) = Some n"
proof -
  obtain c r where cr: "digits_of n = c # r" using digits_of_nonempty by (cases "digits_of n") auto
  have d: "is_digit c" "\<forall>x \<in> set r. is_digit x" using digits_of_digits[of n] cr by auto
  have "foldl (\<lambda>a c. 10 * a + digit_val c) 0 (c # r) = n" using digits_of_fold[of n] cr by simp
  then show ?thesis using cr d digits_from_fold[OF d(2), of "digit_val c"] by simp
qed

lemma dropWhile_none: "\<forall>c \<in> set xs. \<not> P c \<Longrightarrow> dropWhile P xs = xs"
  by (cases xs) auto

lemma strip_id: "\<forall>c \<in> set t. \<not> is_space c \<Longrightarrow> strip t = t"
proof -
  assume a: "\<forall>c \<in> set t. \<not> is_space c"
  have 1: "dropWhile is_space t = t" using a by (rule dropWhile_none)
  have "\<forall>c \<in> set (rev t). \<not> is_space c" using a by simp
  then have 2: "dropWhile is_space (rev t) = rev t" by (rule dropWhile_none)
  show ?thesis unfolding strip_def 1 2 by simp
qed

lemma minus_not_space: "\<not> is_space CHR ''-''"
  by (simp add: is_space_def)

lemma str_int_no_space: "\<forall>c \<in> set (str_int i). \<not> is_space c"
  using digits_of_digits digit_not_space minus_not_space by (auto simp: str_int_def)

lemma digit_not_sign: "is_digit c \<Longrightarrow> c \<noteq> CHR ''-'' \<and> c \<noteq> CHR ''+'' \<and> c \<noteq> CHR 0x22 \<and> c \<noteq> CHR ''n''
    \<and> c \<noteq> CHR ''('' \<and> c \<noteq> CHR '')''"
  by (auto simp: is_digit_def)

lemma py_int_str_int: "py_int (str_int i) = Some i"
proof (cases "i < 0")
  case True
  have "strip (str_int i) = CHR ''-'' # digits_of (nat (- i))"
    using strip_id[OF str_int_no_space, of i] True by (simp add: str_int_def)
  then show ?thesis using True digits_val_digits_of by (simp add: py_int_def)
next
  case False
  obtain c r where cr: "digits_of (nat i) = c # r"
    using digits_of_nonempty by (cases "digits_of (nat i)") auto
  have s: "strip (str_int i) = c # r"
    using strip_id[OF str_int_no_space, of i] False cr by (simp add: str_int_def)
  have "is_digit c" using digits_of_digits[of "nat i"] cr by simp
  then have ns: "c \<noteq> CHR ''-''" "c \<noteq> CHR ''+''" using digit_not_sign by auto
  have "digits_val (c # r) = Some (nat i)" using digits_val_digits_of[of "nat i"] cr by simp
  then show ?thesis using s ns False by (simp add: py_int_def)
qed

lemma str_int_hd: "\<exists>c r. str_int i = c # r \<and> (c = CHR ''-'' \<or> is_digit c)"
proof (cases "i < 0")
  case True
  then show ?thesis by (simp add: str_int_def)
next
  case False
  obtain c r where cr: "digits_of (nat i) = c # r"
    using digits_of_nonempty by (cases "digits_of (nat i)") auto
  then show ?thesis using False digits_of_digits[of "nat i"] by (simp add: str_int_def)
qed

lemma atomize_null: "atomize pf ''null'' = Inr ANone"
  by (simp add: atomize_def)

lemma atomize_int: "atomize pf (str_int i) = Inr (AInt i)"
proof -
  obtain c r where cr: "str_int i = c # r" "c = CHR ''-'' \<or> is_digit c" using str_int_hd by blast
  then have "c \<noteq> CHR 0x22" "c \<noteq> CHR ''n''" using digit_not_sign by auto
  then show ?thesis using cr(1) py_int_str_int[of i] by (simp add: atomize_def)
qed

lemma atomize_str: "atomize pf (CHR 0x22 # s @ [CHR 0x22]) = Inr (AStr s)"
  by (simp add: atomize_def)

lemma float_like_none:
  "float_like pf \<Longrightarrow> c \<in> set t \<Longrightarrow> c \<notin> float_chars \<Longrightarrow> \<not> is_space c \<Longrightarrow> pf t = None"
  unfolding float_like_def by (cases "pf t") auto

lemma replace_back:
  "CHR ''-'' \<notin> set r \<Longrightarrow> replace_char CHR ''-'' CHR ''_'' (replace_char CHR ''_'' CHR ''-'' r) = r"
  by (induction r) (auto simp: replace_char_def)

lemma replace_chars: "set (replace_char a b r) \<subseteq> insert b (set r)"
  by (auto simp: replace_char_def)

lemma hash_facts: "\<not> is_space CHR ''#''" "CHR ''#'' \<notin> float_chars" "\<not> is_digit CHR ''#''"
  "\<not> is_space CHR '':''"
  by (simp_all add: is_space_def float_chars_def is_digit_def)

lemma key_token_clean: "key_ok k \<Longrightarrow> clean (key_token k) \<and> key_token k \<noteq> []"
proof -
  assume k: "key_ok k"
  then obtain c r where cr: "k = c # r" by (cases k) (auto simp: key_ok_def)
  have "set (replace_char CHR ''_'' CHR ''-'' r) \<subseteq> insert CHR ''-'' (set r)" by (rule replace_chars)
  then have "\<forall>x \<in> set (replace_char CHR ''_'' CHR ''-'' r). \<not> is_space x \<and> x \<notin> {CHR 0x22, CHR ''('', CHR '')''}"
    using k cr minus_not_space by (auto simp: key_ok_def)
  then show ?thesis using k cr hash_facts by (auto simp: key_token_def clean_def key_ok_def)
qed

lemma atomize_key:
  assumes "float_like pf" "key_ok k"
  shows "atomize pf (key_token k) = Inr (AKey k)"
proof -
  from assms(2) obtain c r where cr: "k = c # r" by (cases k) (auto simp: key_ok_def)
  let ?r = "replace_char CHR ''_'' CHR ''-'' r"
  have t: "key_token k = CHR ''#'' # CHR '':'' # c # ?r" using cr by (simp add: key_token_def)
  have nm: "c \<noteq> CHR ''-''" "CHR ''-'' \<notin> set r" using assms(2) cr by (auto simp: key_ok_def)
  have "\<forall>x \<in> set (key_token k). \<not> is_space x" using key_token_clean[OF assms(2)] by (simp add: clean_def)
  then have "strip (key_token k) = key_token k" by (rule strip_id)
  then have pi: "py_int (key_token k) = None" using t hash_facts by (simp add: py_int_def)
  have pf: "pf (key_token k) = None"
    using float_like_none[OF assms(1), of "CHR ''#''" "key_token k"] t hash_facts by simp
  have "replace_char CHR ''-'' CHR ''_'' (CHR '':'' # c # ?r) = CHR '':'' # c # r"
    using nm replace_back[OF nm(2)] by (simp add: replace_char_def)
  then show ?thesis using t pi pf cr by (simp add: atomize_def Let_def)
qed

end
